theory Spec2Isabelle
  imports Complex_Main "HOL-Library.Word" "HOL-Library.Log_Nat"
begin

section \<open>Mobile bridge: \<open>mobile/mysterium/openvpn_connection_setup.go\<close>\<close>

subsection \<open>Connection states\<close>

text \<open>
  \<open>connection.State\<close> of the node's core: the four lifecycle states a state event
  carries.
\<close>

datatype State = NotConnected | Connecting | Connected | Disconnecting

record StateEvent =
  State :: State

subsection \<open>The session tracker\<close>

text \<open>
  \<open>sessionTracker\<close> holds a pointer to the native session (\<open>None\<close> is Go's \<open>nil\<close>) and
  a \<open>sync.Mutex\<close>. The model adds one ghost field, \<open>accesses\<close>: every read and write of
  the \<open>session\<close> field is logged with the value the mutex had at that moment, so that
  the locking discipline of each method can be read off its run. The methods are run one
  after the other, so the mutex is free whenever \<open>Lock\<close> is called and \<open>Lock\<close> never has to
  wait.
\<close>

datatype access = ReadSession bool | WriteSession bool

record 's sessionTracker =
  session :: "'s option"
  mux :: bool
  accesses :: "access list"

definition newSessionTracker :: "'s sessionTracker" where
  "newSessionTracker = \<lparr>session = None, mux = False, accesses = []\<rparr>"

definition Lock :: "'s sessionTracker \<Rightarrow> 's sessionTracker" where
  "Lock st = st\<lparr>mux := True\<rparr>"

definition Unlock :: "'s sessionTracker \<Rightarrow> 's sessionTracker" where
  "Unlock st = st\<lparr>mux := False\<rparr>"

definition readSession :: "'s sessionTracker \<Rightarrow> 's option \<times> 's sessionTracker" where
  "readSession st = (session st, st\<lparr>accesses := accesses st @ [ReadSession (mux st)]\<rparr>)"

definition writeSession :: "'s option \<Rightarrow> 's sessionTracker \<Rightarrow> 's sessionTracker" where
  "writeSession s st = st\<lparr>session := s, accesses := accesses st @ [WriteSession (mux st)]\<rparr>"

text \<open>
  \<^verbatim>\<open>
  func (st *sessionTracker) sessionCreated(s *openvpn3.Session) {
      st.mux.Lock()
      st.session = s
      st.mux.Unlock()
  }
  \<close>
\<close>

definition sessionCreated :: "'s option \<Rightarrow> 's sessionTracker \<Rightarrow> 's sessionTracker" where
  "sessionCreated s st = Unlock (writeSession s (Lock st))"

text \<open>
  \<^verbatim>\<open>
  func (st *sessionTracker) Reconnect(afterSeconds int) error {
      if st.session == nil {
          return errors.New("session not created yet")
      }
      return st.session.Reconnect(afterSeconds)
  }
  \<close>
  The native \<open>Reconnect\<close> of the engine is a parameter; it returns the engine's error or
  \<open>None\<close> for Go's \<open>nil\<close>. The error made by \<open>errors.New\<close> is a value of its own
  (\<open>SessionNotCreatedYet\<close>), distinct from whatever the engine returns. The method reads
  the field twice, for the test and for the call; \<open>NilReceiver\<close> stands for a call on a
  pointer found \<open>nil\<close> at the second read.
\<close>

datatype 'e reconnect_result = SessionNotCreatedYet | Forwarded "'e option" | NilReceiver

definition Reconnect ::
  "('s \<Rightarrow> int \<Rightarrow> 'e option) \<Rightarrow> int \<Rightarrow> 's sessionTracker \<Rightarrow> 'e reconnect_result \<times> 's sessionTracker" where
  "Reconnect nativeReconnect afterSeconds st =
     (case readSession st of
        (None, st1) \<Rightarrow> (SessionNotCreatedYet, st1)
      | (Some _, st1) \<Rightarrow>
          (case readSession st1 of
             (Some s, st2) \<Rightarrow> (Forwarded (nativeReconnect s afterSeconds), st2)
           | (None, st2) \<Rightarrow> (NilReceiver, st2)))"

text \<open>
  \<^verbatim>\<open>
  func (st *sessionTracker) handleState(stateEvent connection.StateEvent) {
      // On disconnected - remove session
      if stateEvent.State == connection.Disconnecting {
          st.session = nil
      }
  }
  \<close>
\<close>

definition handleState :: "StateEvent \<Rightarrow> 's sessionTracker \<Rightarrow> 's sessionTracker" where
  "handleState stateEvent st =
     (if State stateEvent = Disconnecting then writeSession None st else st)"

text \<open>
  What reaches a tracker during its life: the connection factory registered by
  \<open>OverrideOpenvpnConnection\<close> calls \<open>sessionCreated\<close> with the session that
  \<open>openvpn3.NewMobileSession\<close> has just built (never \<open>nil\<close>), the event bus calls
  \<open>handleState\<close> with each state event, and the holder of the \<open>ReconnectableSession\<close>
  calls \<open>Reconnect\<close> with a delay, as often as it likes.
\<close>

datatype 's tracker_call = SessionCreated 's | HandleState StateEvent | ReconnectCall int

fun tracker_step ::
  "('s \<Rightarrow> int \<Rightarrow> 'e option) \<Rightarrow> 's sessionTracker \<Rightarrow> 's tracker_call \<Rightarrow> 's sessionTracker" where
  "tracker_step nativeReconnect st (SessionCreated s) = sessionCreated (Some s) st"
| "tracker_step nativeReconnect st (HandleState ev) = handleState ev st"
| "tracker_step nativeReconnect st (ReconnectCall afterSeconds) =
     snd (Reconnect nativeReconnect afterSeconds st)"

definition tracker_run ::
  "('s \<Rightarrow> int \<Rightarrow> 'e option) \<Rightarrow> 's tracker_call list \<Rightarrow> 's sessionTracker" where
  "tracker_run nativeReconnect calls = foldl (tracker_step nativeReconnect) newSessionTracker calls"

definition is_disconnecting :: "'s tracker_call \<Rightarrow> bool" where
  "is_disconnecting c = (case c of HandleState ev \<Rightarrow> State ev = Disconnecting | _ \<Rightarrow> False)"

definition is_created :: "'s tracker_call \<Rightarrow> bool" where
  "is_created c = (case c of SessionCreated _ \<Rightarrow> True | _ \<Rightarrow> False)"

text \<open>
  The spec's condition, in its own words: some \<open>sessionCreated\<close> call has occurred
  since the last Disconnecting event, that is, the calls after the last Disconnecting
  event contain a \<open>sessionCreated\<close>.
\<close>

fun since_last_disconnecting :: "'s tracker_call list \<Rightarrow> 's tracker_call list" where
  "since_last_disconnecting [] = []"
| "since_last_disconnecting (c # cs) =
     (if list_ex is_disconnecting cs then since_last_disconnecting cs
      else if is_disconnecting c then cs else c # cs)"

text \<open>The handle passed by the last \<open>sessionCreated\<close> among the given calls.\<close>

fun last_created :: "'s tracker_call list \<Rightarrow> 's option" where
  "last_created [] = None"
| "last_created (SessionCreated s # cs) = (case last_created cs of None \<Rightarrow> Some s | Some t \<Rightarrow> Some t)"
| "last_created (HandleState _ # cs) = last_created cs"
| "last_created (ReconnectCall _ # cs) = last_created cs"

definition created_since_last_disconnecting :: "'s tracker_call list \<Rightarrow> bool" where
  "created_since_last_disconnecting calls = list_ex is_created (since_last_disconnecting calls)"

subsection \<open>The event adapter\<close>

text \<open>
  A Go channel is modelled by the operations that have succeeded on it, in order: each
  value sent and the close. Sending on a closed channel panics, and so does closing a
  closed channel. The receiving side is not modelled: a send is taken to be received.
\<close>

datatype 'a chan_op = Sent 'a | Closed

type_synonym 'a chan = "'a chan_op list"

datatype panic = SendOnClosedChannel | CloseOfClosedChannel

datatype 'a result = Ok 'a | Panicked panic 'a

definition is_closed :: "'a chan \<Rightarrow> bool" where
  "is_closed c = (Closed \<in> set c)"

definition send :: "'a \<Rightarrow> 'a chan \<Rightarrow> 'a chan result" where
  "send v c = (if is_closed c then Panicked SendOnClosedChannel c else Ok (c @ [Sent v]))"

definition close_chan :: "'a chan \<Rightarrow> 'a chan result" where
  "close_chan c = (if is_closed c then Panicked CloseOfClosedChannel c else Ok (c @ [Closed]))"

record SessionStatistics =
  BytesSent :: "64 word"
  BytesReceived :: "64 word"

record Event =
  Name :: string

datatype log_entry = UnhandledEvent Event | LogText string

text \<open>
  \<open>channelToCallbacksAdapter\<close> with its two channels; \<open>seelog\<close> is the process log sink
  that \<open>seelog.Infof\<close> writes to.
\<close>

record channelToCallbacksAdapter =
  stateChannel :: "State chan"
  statisticsChannel :: "SessionStatistics chan"
  seelog :: "log_entry list"

definition channelToCallbacks :: "State chan \<Rightarrow> SessionStatistics chan \<Rightarrow> channelToCallbacksAdapter" where
  "channelToCallbacks sc stc = \<lparr>stateChannel = sc, statisticsChannel = stc, seelog = []\<rparr>"

text \<open>
  \<^verbatim>\<open>
  func (adapter channelToCallbacksAdapter) OnEvent(event openvpn3.Event) {
      switch event.Name {
      case "CONNECTING":
          adapter.stateChannel <- connection.Connecting
      case "CONNECTED":
          adapter.stateChannel <- connection.Connected
      case "DISCONNECTED":
          adapter.stateChannel <- connection.NotConnected
          close(adapter.stateChannel)
      default:
          seelog.Infof("Unhandled event: %+v", event)
      }
  }
  \<close>
\<close>

definition push_state :: "State \<Rightarrow> channelToCallbacksAdapter \<Rightarrow> channelToCallbacksAdapter result" where
  "push_state v adapter =
     (case send v (stateChannel adapter) of
        Ok c \<Rightarrow> Ok (adapter\<lparr>stateChannel := c\<rparr>)
      | Panicked p c \<Rightarrow> Panicked p (adapter\<lparr>stateChannel := c\<rparr>))"

definition close_state :: "channelToCallbacksAdapter \<Rightarrow> channelToCallbacksAdapter result" where
  "close_state adapter =
     (case close_chan (stateChannel adapter) of
        Ok c \<Rightarrow> Ok (adapter\<lparr>stateChannel := c\<rparr>)
      | Panicked p c \<Rightarrow> Panicked p (adapter\<lparr>stateChannel := c\<rparr>))"

definition OnEvent :: "channelToCallbacksAdapter \<Rightarrow> Event \<Rightarrow> channelToCallbacksAdapter result" where
  "OnEvent adapter event =
     (if Name event = ''CONNECTING'' then push_state Connecting adapter
      else if Name event = ''CONNECTED'' then push_state Connected adapter
      else if Name event = ''DISCONNECTED'' then
        (case push_state NotConnected adapter of
           Ok adapter' \<Rightarrow> close_state adapter'
         | Panicked p adapter' \<Rightarrow> Panicked p adapter')
      else Ok (adapter\<lparr>seelog := seelog adapter @ [UnhandledEvent event]\<rparr>))"

text \<open>
  The engine delivers its events one after the other; a panic ends the process, so the
  events after it are never handled.
\<close>

fun OnEvents :: "channelToCallbacksAdapter \<Rightarrow> Event list \<Rightarrow> channelToCallbacksAdapter result" where
  "OnEvents adapter [] = Ok adapter"
| "OnEvents adapter (event # events) =
     (case OnEvent adapter event of
        Ok adapter' \<Rightarrow> OnEvents adapter' events
      | Panicked p adapter' \<Rightarrow> Panicked p adapter')"

definition state_of :: "'a result \<Rightarrow> 'a" where
  "state_of r = (case r of Ok a \<Rightarrow> a | Panicked _ a \<Rightarrow> a)"

definition crashed :: "'a result \<Rightarrow> bool" where
  "crashed r = (case r of Ok _ \<Rightarrow> False | Panicked _ _ \<Rightarrow> True)"

definition handled :: "Event \<Rightarrow> bool" where
  "handled event = (Name event \<in> {''CONNECTING'', ''CONNECTED'', ''DISCONNECTED''})"

text \<open>
  An event stream in which the engine sends nothing the adapter handles once it has sent
  "DISCONNECTED".
\<close>

fun quiet_after_disconnected :: "Event list \<Rightarrow> bool" where
  "quiet_after_disconnected [] = True"
| "quiet_after_disconnected (event # events) =
     (if Name event = ''DISCONNECTED'' then \<not> list_ex handled events
      else quiet_after_disconnected events)"

text \<open>No operation on the channel follows its close.\<close>

fun nothing_after_close :: "'a chan \<Rightarrow> bool" where
  "nothing_after_close [] = True"
| "nothing_after_close (Closed # ops) = (ops = [])"
| "nothing_after_close (Sent _ # ops) = nothing_after_close ops"

text \<open>
  The shape of the state channel in every run from a fresh channel: open and without
  \<open>NotConnected\<close>, or ended by one \<open>NotConnected\<close> and the close.
\<close>

definition chan_inv :: "State chan \<Rightarrow> bool" where
  "chan_inv c = ((Closed \<notin> set c \<and> Sent NotConnected \<notin> set c)
     \<or> (\<exists>xs. c = xs @ [Sent NotConnected, Closed] \<and> Closed \<notin> set xs \<and> Sent NotConnected \<notin> set xs))"

text \<open>
  \<^verbatim>\<open>
  func (adapter channelToCallbacksAdapter) OnStats(openvpnStats openvpn3.Statistics) {
      adapter.statisticsChannel <- consumer.SessionStatistics{
          BytesSent:     uint64(openvpnStats.BytesOut),
          BytesReceived: uint64(openvpnStats.BytesIn),
      }
  }
  \<close>
  The engine's counters \<open>BytesOut\<close> and \<open>BytesIn\<close> are Go \<open>int\<close>s (64 bits).
\<close>

record Statistics =
  BytesIn :: "64 word"
  BytesOut :: "64 word"

definition OnStats :: "channelToCallbacksAdapter \<Rightarrow> Statistics \<Rightarrow> channelToCallbacksAdapter result" where
  "OnStats adapter openvpnStats =
     (case send \<lparr>BytesSent = BytesOut openvpnStats, BytesReceived = BytesIn openvpnStats\<rparr>
             (statisticsChannel adapter) of
        Ok c \<Rightarrow> Ok (adapter\<lparr>statisticsChannel := c\<rparr>)
      | Panicked p c \<Rightarrow> Panicked p (adapter\<lparr>statisticsChannel := c\<rparr>))"

subsection \<open>The uniform connection handle\<close>

text \<open>
  \<open>sessionWrapper\<close> wraps the native session. The engine's session is not part of this
  repository: its \<open>Start\<close>, \<open>Stop\<close> and \<open>Wait\<close> are parameters acting on the engine's
  state \<open>'n\<close>. \<open>nStart\<close> gives the failure of the native start, if any, next to the new
  state, however the engine reports it.
\<close>

record ('n, 'e) nativeSession =
  nStart :: "'n \<Rightarrow> 'e option \<times> 'n"
  nStop :: "'n \<Rightarrow> 'n"
  nWait :: "'n \<Rightarrow> 'e option \<times> 'n"

text \<open>
  \<^verbatim>\<open>
  func (wrapper *sessionWrapper) Start() error {
      wrapper.session.Start()
      return nil
  }
  func (wrapper *sessionWrapper) Stop() { wrapper.session.Stop() }
  func (wrapper *sessionWrapper) Wait() error { return wrapper.session.Wait() }
  \<close>
\<close>

definition wrapper_Start :: "('n, 'e) nativeSession \<Rightarrow> 'n \<Rightarrow> 'e option \<times> 'n" where
  "wrapper_Start native n = (case nStart native n of (_, n') \<Rightarrow> (None, n'))"

text \<open>A native session whose start fails, and whose \<open>Wait\<close> reports that failure.\<close>

definition failing_native :: "(unit, string) nativeSession" where
  "failing_native = \<lparr>nStart = (\<lambda>n. (Some ''start failed'', n)), nStop = (\<lambda>n. n), nWait = (\<lambda>n. (Some ''start failed'', n))\<rparr>"

definition wrapper_Stop :: "('n, 'e) nativeSession \<Rightarrow> 'n \<Rightarrow> 'n" where
  "wrapper_Stop native n = nStop native n"

definition wrapper_Wait :: "('n, 'e) nativeSession \<Rightarrow> 'n \<Rightarrow> 'e option \<times> 'n" where
  "wrapper_Wait native n = nWait native n"

section \<open>Service endpoint: \<open>tequilapi/endpoints/service.go\<close>\<close>

subsection \<open>Data\<close>

text \<open>
  The errors the endpoint handles: what \<open>json.Decoder.Decode\<close> returns on a body it
  cannot read, an error made on the spot by \<open>errors.New\<close>, the service package's
  \<open>ErrorLocation\<close>, which \<open>ServiceStart\<close> compares with, and any other error of the
  service manager or of an options parser.
\<close>

datatype error = DecodeError string | NewError string | ErrorLocation | OtherError string

definition StatusCreated :: nat where "StatusCreated = 201"

definition StatusBadRequest :: nat where "StatusBadRequest = 400"

definition StatusConflict :: nat where "StatusConflict = 409"

definition StatusInternalServerError :: nat where "StatusInternalServerError = 500"

type_synonym ID = string

type_synonym RawMessage = string

record Identity =
  Address :: string

text \<open>
  The proposal of a service instance and the instance itself come from packages outside
  these sources; the endpoint reads the two fields below of a proposal, and
  \<open>Proposal()\<close> and \<open>State()\<close> of an instance. \<open>Running\<close> is the service package's state
  of a started service.
\<close>

record ServiceProposal =
  ProviderID_p :: string
  ServiceType_p :: string

record Instance =
  Proposal_i :: ServiceProposal
  State_i :: string

definition Running :: string where
  "Running = ''Running''"

text \<open>
  \<open>serviceRequest\<close>. \<open>Options\<close> is an \<open>interface{}\<close>: \<open>None\<close> is \<open>nil\<close>, \<open>Some\<close> holds the
  options a parser returned.
\<close>

record 'o serviceRequest =
  ProviderID :: string
  Passphrase :: string
  ServiceType :: string
  Options :: "'o option"

text \<open>
  The anonymous struct \<open>jsonData\<close> that \<open>toServiceRequest\<close> decodes the body into. A key
  that the body leaves out keeps Go's zero value: the empty string, or \<open>nil\<close> for the
  \<open>*json.RawMessage\<close>. A request is given by what decoding its body yields.
\<close>

record jsonData =
  ProviderID_j :: string
  ServiceType_j :: string
  Options_j :: "RawMessage option"

type_synonym Request = "error + jsonData"

record serviceInfo =
  ID_s :: ID
  Proposal_s :: ServiceProposal
  Status_s :: string

text \<open>
  \<open>ServiceManager\<close>, the interface at the end of the file, as functions on the manager's
  state \<open>'m\<close>. \<open>List\<close> gives the entries of its map in the order the \<open>range\<close> loop meets
  them, an order Go does not fix.
\<close>

record ('m, 'o) ServiceManager =
  Start_m :: "'m \<Rightarrow> Identity \<Rightarrow> string \<Rightarrow> 'o option \<Rightarrow> (error + ID) \<times> 'm"
  Stop_m :: "'m \<Rightarrow> ID \<Rightarrow> error option \<times> 'm"
  Service_m :: "'m \<Rightarrow> ID \<Rightarrow> Instance option"
  Kill_m :: "'m \<Rightarrow> error option \<times> 'm"
  List_m :: "'m \<Rightarrow> (ID \<times> Instance) list"

record ('m, 'o) ServiceEndpoint =
  serviceManager :: "('m, 'o) ServiceManager"
  optionsParser :: "string \<rightharpoonup> (RawMessage \<Rightarrow> error + 'o)"

subsection \<open>Validation errors\<close>

text \<open>
  Modelled from the spec: the \<open>validation\<close> package (\<open>NewErrorMap\<close>, \<open>ForField\<close>,
  \<open>AddError\<close>, \<open>HasErrors\<close>) is not among the sources. The spec gives the validation
  error object as a mapping from field name to a list of \<open>{code, message}\<close>; the fields
  are kept in the order of their first error.
\<close>

type_synonym FieldErrorMap = "(string \<times> (string \<times> string) list) list"

definition NewErrorMap :: FieldErrorMap where
  "NewErrorMap = []"

definition ForField_AddError :: "string \<Rightarrow> string \<Rightarrow> string \<Rightarrow> FieldErrorMap \<Rightarrow> FieldErrorMap" where
  "ForField_AddError field code message errors =
     (case map_of errors field of
        None \<Rightarrow> errors @ [(field, [(code, message)])]
      | Some l \<Rightarrow> map (\<lambda>(f, es). if f = field then (f, es @ [(code, message)]) else (f, es)) errors)"

definition HasErrors :: "FieldErrorMap \<Rightarrow> bool" where
  "HasErrors errors = (errors \<noteq> [])"

subsection \<open>Starting a service\<close>

text \<open>
  \<^verbatim>\<open>
  func (se *ServiceEndpoint) toServiceRequest(req *http.Request) (sr serviceRequest, err error) {
      var jsonData struct { ... }
      if err = json.NewDecoder(req.Body).Decode(&jsonData); err != nil {
          return
      }
      sr.ProviderID = jsonData.ProviderID
      sr.ServiceType = jsonData.ServiceType
      if jsonData.Options != nil {
          optionsParser, ok := se.optionsParser[sr.ServiceType]
          if !ok {
              err = errors.New("Invalid service type")
              return
          }
          sr.Options, err = optionsParser(*jsonData.Options)
          if err != nil {
              err = errors.New("Invalid options")
              return
          }
      }
      return sr, nil
  }
  \<close>
\<close>

definition toServiceRequest :: "('m, 'o) ServiceEndpoint \<Rightarrow> Request \<Rightarrow> error + 'o serviceRequest" where
  "toServiceRequest se req =
     (case req of
        Inl err \<Rightarrow> Inl err
      | Inr jsonData \<Rightarrow>
          (let sr = \<lparr>ProviderID = ProviderID_j jsonData, Passphrase = '''',
                     ServiceType = ServiceType_j jsonData, Options = None\<rparr>
           in case Options_j jsonData of
                None \<Rightarrow> Inr sr
              | Some raw \<Rightarrow>
                  (case optionsParser se (ServiceType sr) of
                     None \<Rightarrow> Inl (NewError ''Invalid service type'')
                   | Some parser \<Rightarrow>
                       (case parser raw of
                          Inl _ \<Rightarrow> Inl (NewError ''Invalid options'')
                        | Inr opts \<Rightarrow> Inr (sr\<lparr>Options := Some opts\<rparr>)))))"

text \<open>
  \<^verbatim>\<open>
  func validateServiceRequest(sr serviceRequest) *validation.FieldErrorMap {
      errors := validation.NewErrorMap()
      if len(sr.ProviderID) == 0 {
          errors.ForField("providerId").AddError("required", "Field is required")
      }
      if sr.ServiceType == "" {
          errors.ForField("serviceType").AddError("required", "Field is required")
      }
      return errors
  }
  \<close>
\<close>

definition validateServiceRequest :: "'o serviceRequest \<Rightarrow> FieldErrorMap" where
  "validateServiceRequest sr =
     (let errors = NewErrorMap;
          errors = (if length (ProviderID sr) = 0
                    then ForField_AddError ''providerId'' ''required'' ''Field is required'' errors
                    else errors);
          errors = (if ServiceType sr = ''''
                    then ForField_AddError ''serviceType'' ''required'' ''Field is required'' errors
                    else errors)
      in errors)"

text \<open>
  \<^verbatim>\<open>
  func (se *ServiceEndpoint) isAlreadyRunning(sr serviceRequest) bool {
      for _, instance := range se.serviceManager.List() {
          proposal := instance.Proposal()
          if proposal.ProviderID == sr.ProviderID && proposal.ServiceType == sr.ServiceType {
              return true
          }
      }
      return false
  }
  \<close>
\<close>

fun isAlreadyRunning_range :: "(ID \<times> Instance) list \<Rightarrow> 'o serviceRequest \<Rightarrow> bool" where
  "isAlreadyRunning_range [] sr = False"
| "isAlreadyRunning_range ((_, instance) # rest) sr =
     (let proposal = Proposal_i instance
      in if ProviderID_p proposal = ProviderID sr \<and> ServiceType_p proposal = ServiceType sr
         then True
         else isAlreadyRunning_range rest sr)"

definition isAlreadyRunning :: "('m, 'o) ServiceEndpoint \<Rightarrow> 'm \<Rightarrow> 'o serviceRequest \<Rightarrow> bool" where
  "isAlreadyRunning se m sr = isAlreadyRunning_range (List_m (serviceManager se) m) sr"

text \<open>
  \<open>toServiceInfoResponse\<close>; \<open>proposalToRes\<close>, which is not among the sources, is left
  out: the proposal is carried as it is.
\<close>

definition toServiceInfoResponse :: "ID \<Rightarrow> Instance \<Rightarrow> serviceInfo" where
  "toServiceInfoResponse sid instance =
     \<lparr>ID_s = sid, Proposal_s = Proposal_i instance, Status_s = State_i instance\<rparr>"

text \<open>
  What \<open>ServiceStart\<close> writes to the response: one of the \<open>utils\<close> calls with its
  arguments, or the status 201 with the service info. \<open>NilInstance\<close> stands for the
  panic of \<open>toServiceInfoResponse\<close> on a \<open>nil\<close> instance, should the manager not know the
  id it has just returned.
\<close>

datatype response =
    SendError error nat
  | SendErrorMessage string nat
  | SendValidationErrorMessage FieldErrorMap
  | WriteCreated serviceInfo
  | NilInstance

text \<open>The calls \<open>ServiceStart\<close> makes to the service manager, in order.\<close>

datatype 'o manager_call = CallList | CallStart Identity string "'o option" | CallService ID

definition is_CallStart :: "'o manager_call \<Rightarrow> bool" where
  "is_CallStart c = (case c of CallStart _ _ _ \<Rightarrow> True | _ \<Rightarrow> False)"

text \<open>
  \<^verbatim>\<open>
  func (se *ServiceEndpoint) ServiceStart(resp http.ResponseWriter, req *http.Request, params httprouter.Params) {
      sr, err := se.toServiceRequest(req)
      if err != nil {
          utils.SendError(resp, err, http.StatusBadRequest)
          return
      }
      errorMap := validateServiceRequest(sr)
      if errorMap.HasErrors() {
          utils.SendValidationErrorMessage(resp, errorMap)
          return
      }
      if se.isAlreadyRunning(sr) {
          utils.SendErrorMessage(resp, "Service already running", http.StatusConflict)
          return
      }
      id, err := se.serviceManager.Start(identity.FromAddress(sr.ProviderID), sr.ServiceType, sr.Options)
      if err == service.ErrorLocation {
          utils.SendError(resp, err, http.StatusBadRequest)
          return
      } else if err != nil {
          utils.SendError(resp, err, http.StatusInternalServerError)
          return
      }
      instance := se.serviceManager.Service(id)
      resp.WriteHeader(http.StatusCreated)
      statusResponse := toServiceInfoResponse(id, instance)
      utils.WriteAsJSON(statusResponse, resp)
  }
  \<close>
  \<open>identity.FromAddress\<close> is a parameter. The result is the response, the calls made to
  the service manager and the manager's state afterwards.
\<close>

definition ServiceStart ::
  "('m, 'o) ServiceEndpoint \<Rightarrow> (string \<Rightarrow> Identity) \<Rightarrow> 'm \<Rightarrow> Request
     \<Rightarrow> response \<times> 'o manager_call list \<times> 'm" where
  "ServiceStart se FromAddress m req =
     (case toServiceRequest se req of
        Inl err \<Rightarrow> (SendError err StatusBadRequest, [], m)
      | Inr sr \<Rightarrow>
          (let errorMap = validateServiceRequest sr
           in if HasErrors errorMap then (SendValidationErrorMessage errorMap, [], m)
              else if isAlreadyRunning se m sr
              then (SendErrorMessage ''Service already running'' StatusConflict, [CallList], m)
              else
                (let providerID = FromAddress (ProviderID sr);
                     start = CallStart providerID (ServiceType sr) (Options sr)
                 in case Start_m (serviceManager se) m providerID (ServiceType sr) (Options sr) of
                      (Inl err, m') \<Rightarrow>
                        if err = ErrorLocation
                        then (SendError err StatusBadRequest, [CallList, start], m')
                        else (SendError err StatusInternalServerError, [CallList, start], m')
                    | (Inr sid, m') \<Rightarrow>
                        (case Service_m (serviceManager se) m' sid of
                           None \<Rightarrow> (NilInstance, [CallList, start, CallService sid], m')
                         | Some instance \<Rightarrow>
                             (WriteCreated (toServiceInfoResponse sid instance),
                              [CallList, start, CallService sid], m')))))"

text \<open>
  An endpoint for the examples: a manager whose state is the list of its instances,
  whose \<open>Start\<close> adds an instance in the state \<open>Running\<close> under the next free number, and
  a parser registered for "wireguard" that accepts the payload \<open>{}\<close> only.
\<close>

definition example_manager :: "((ID \<times> Instance) list, string) ServiceManager" where
  "example_manager =
     \<lparr>Start_m = (\<lambda>m providerID serviceType opts.
          (Inr (replicate (Suc (length m)) CHR ''i''),
           m @ [(replicate (Suc (length m)) CHR ''i'',
                 \<lparr>Proposal_i = \<lparr>ProviderID_p = Address providerID, ServiceType_p = serviceType\<rparr>,
                  State_i = Running\<rparr>)])),
      Stop_m = (\<lambda>m sid. (None, filter (\<lambda>(i, _). i \<noteq> sid) m)),
      Service_m = (\<lambda>m sid. map_of m sid),
      Kill_m = (\<lambda>m. (None, [])),
      List_m = (\<lambda>m. m)\<rparr>"

definition example_endpoint :: "((ID \<times> Instance) list, string) ServiceEndpoint" where
  "example_endpoint =
     \<lparr>serviceManager = example_manager,
      optionsParser = [''wireguard'' \<mapsto>
        (\<lambda>raw. if raw = ''{}'' then Inr raw else Inl (OtherError ''unexpected option''))]\<rparr>"

text \<open>The entry \<open>validateServiceRequest\<close> adds for a field that is missing.\<close>

definition required_error :: "string \<Rightarrow> FieldErrorMap" where
  "required_error field = [(field, [(''required'', ''Field is required'')])]"

text \<open>Two running services of different providers and types.\<close>

definition two_services :: "(ID \<times> Instance) list" where
  "two_services =
     [(''i'', \<lparr>Proposal_i = \<lparr>ProviderID_p = ''0xdef'', ServiceType_p = ''openvpn''\<rparr>, State_i = Running\<rparr>),
      (''ii'', \<lparr>Proposal_i = \<lparr>ProviderID_p = ''0xabc'', ServiceType_p = ''wireguard''\<rparr>, State_i = Running\<rparr>)]"

section \<open>Provider mode of the mobile node\<close>

text \<open>
  \<open>strings.Split\<close> for a separator of one character, which is how \<open>StartProvider\<close>
  calls it.
\<close>

fun Split :: "string \<Rightarrow> char \<Rightarrow> string list" where
  "Split [] sep = [[]]"
| "Split (c # cs) sep =
     (if c = sep then [] # Split cs sep
      else (case Split cs sep of
              w # ws \<Rightarrow> (c # w) # ws
            | [] \<Rightarrow> [[c]]))"

text \<open>
  The parts of the mobile node that \<open>unlockIdentity\<close> and \<open>StartProvider\<close> use, none of
  them among the sources: the identity selector's \<open>UseOrCreate\<close>,
  \<open>services.GetStartOptions\<close> with the two fields read from its result, the services
  manager's \<open>Start\<close> on the manager's state \<open>'m\<close>, and the three configuration values.
\<close>

record ('ap, 'to) StartOptions =
  AccessPolicyList :: 'ap
  TypeOptions :: 'to

record ('m, 'ap, 'to) MobileNode =
  UseOrCreate :: "string \<Rightarrow> string \<Rightarrow> int \<Rightarrow> error + Identity"
  GetStartOptions :: "string \<Rightarrow> error + ('ap, 'to) StartOptions"
  servicesManager_Start :: "'m \<Rightarrow> Identity \<Rightarrow> string \<Rightarrow> 'ap \<Rightarrow> 'to \<Rightarrow> (error + ID) \<times> 'm"
  FlagChainID :: int
  FlagIdentity :: string
  FlagIdentityPassphrase :: string

text \<open>
  \<^verbatim>\<open>
  func (mb *MobileNode) unlockIdentity(adr, passphrase string) string {
      chainID := config.GetInt64(config.FlagChainID)
      id, err := mb.identitySelector.UseOrCreate(adr, passphrase, chainID)
      if err != nil {
          return ""
      }
      return id.Address
  }
  \<close>
\<close>

definition unlockIdentity :: "('m, 'ap, 'to) MobileNode \<Rightarrow> string \<Rightarrow> string \<Rightarrow> string" where
  "unlockIdentity mb adr passphrase =
     (let chainID = FlagChainID mb
      in case UseOrCreate mb adr passphrase chainID of
           Inl err \<Rightarrow> ''''
         | Inr ident \<Rightarrow> Address ident)"

text \<open>
  What \<open>StartProvider\<close> leaves behind: the lines it logs, the calls it makes to the
  services manager's \<open>Start\<close>, each with its arguments and with what it returned, and the
  manager's state. A service type is started when its \<open>Start\<close> call returns no error.
\<close>

datatype log_line = Info string | Error error string

record ('ap, 'to) start_call =
  identity_c :: Identity
  serviceType_c :: string
  accessPolicyList_c :: 'ap
  typeOptions_c :: 'to
  result_c :: "error + ID"

definition was_started :: "('ap, 'to) start_call \<Rightarrow> bool" where
  "was_started c = (case result_c c of Inr _ \<Rightarrow> True | Inl _ \<Rightarrow> False)"

text \<open>
  \<^verbatim>\<open>
  for _, serviceType := range serviceTypes {
      serviceOpts, err := services.GetStartOptions(serviceType)
      if err != nil {
          log.Error().Err(err).Msg("GetStartOptions failed")
          return
      }
      _, err = mb.servicesManager.Start(identity.Identity{Address: providerID}, serviceType,
          serviceOpts.AccessPolicyList, serviceOpts.TypeOptions)
      if err != nil {
          log.Error().Err(err).Msg("servicesManager.Start failed")
          return
      }
  }
  \<close>
\<close>

fun StartProvider_range ::
  "('m, 'ap, 'to) MobileNode \<Rightarrow> string \<Rightarrow> string list \<Rightarrow> 'm
     \<Rightarrow> log_line list \<times> ('ap, 'to) start_call list \<times> 'm" where
  "StartProvider_range mb providerID [] m = ([], [], m)"
| "StartProvider_range mb providerID (serviceType # rest) m =
     (case GetStartOptions mb serviceType of
        Inl err \<Rightarrow> ([Error err ''GetStartOptions failed''], [], m)
      | Inr serviceOpts \<Rightarrow>
          (case servicesManager_Start mb m \<lparr>Address = providerID\<rparr> serviceType
                  (AccessPolicyList serviceOpts) (TypeOptions serviceOpts) of
             (res, m') \<Rightarrow>
               (let call = \<lparr>identity_c = \<lparr>Address = providerID\<rparr>, serviceType_c = serviceType,
                            accessPolicyList_c = AccessPolicyList serviceOpts,
                            typeOptions_c = TypeOptions serviceOpts, result_c = res\<rparr>
                in case res of
                     Inl err \<Rightarrow> ([Error err ''servicesManager.Start failed''], [call], m')
                   | Inr _ \<Rightarrow>
                       (case StartProvider_range mb providerID rest m' of
                          (logged, calls, m'') \<Rightarrow> (logged, call # calls, m'')))))"

text \<open>
  \<^verbatim>\<open>
  func (mb *MobileNode) StartProvider() {
      providerID := mb.unlockIdentity(
          config.FlagIdentity.Value,
          config.FlagIdentityPassphrase.Value,
      )
      log.Info().Msgf("Unlocked identity: %v", providerID)

      activeServices := "wireguard,scraping,data_transfer"
      serviceTypes := strings.Split(activeServices, ",")

      for _, serviceType := range serviceTypes { ... }
  }
  \<close>
\<close>

definition StartProvider ::
  "('m, 'ap, 'to) MobileNode \<Rightarrow> 'm \<Rightarrow> log_line list \<times> ('ap, 'to) start_call list \<times> 'm" where
  "StartProvider mb m =
     (let providerID = unlockIdentity mb (FlagIdentity mb) (FlagIdentityPassphrase mb);
          unlocked = Info (''Unlocked identity: '' @ providerID);
          activeServices = ''wireguard,scraping,data_transfer'';
          serviceTypes = Split activeServices CHR '',''
      in case StartProvider_range mb providerID serviceTypes m of
           (logged, calls, m') \<Rightarrow> (unlocked # logged, calls, m'))"

definition is_Error :: "log_line \<Rightarrow> bool" where
  "is_Error l = (case l of Error _ _ \<Rightarrow> True | Info _ \<Rightarrow> False)"

text \<open>
  A node for the examples: the identity cannot be unlocked, every service type has start
  options, and the manager, whose state counts its services, starts whatever it is asked
  to.
\<close>

definition locked_node :: "(nat, unit, unit) MobileNode" where
  "locked_node =
     \<lparr>UseOrCreate = (\<lambda>adr passphrase chainID. Inl (OtherError ''wrong passphrase'')),
      GetStartOptions = (\<lambda>serviceType. Inr \<lparr>AccessPolicyList = (), TypeOptions = ()\<rparr>),
      servicesManager_Start = (\<lambda>m providerID serviceType ap to. (Inr ''id'', Suc m)),
      FlagChainID = 1,
      FlagIdentity = ''0xabc'',
      FlagIdentityPassphrase = ''pw''\<rparr>"

text \<open>
  The same node with a manager that refuses to start a service for an identity without
  an address.
\<close>

definition refusing_node :: "(nat, unit, unit) MobileNode" where
  "refusing_node =
     locked_node\<lparr>servicesManager_Start := (\<lambda>m providerID serviceType ap to.
        if Address providerID = '''' then (Inl (OtherError ''no identity''), m)
        else (Inr ''id'', Suc m))\<rparr>"

section \<open>Session history: \<open>GetDuration\<close>\<close>

subsection \<open>Durations and their seconds\<close>

text \<open>
  An instant (\<open>time.Time\<close>) is given by its count of nanoseconds. \<open>Time.Sub\<close> returns the
  difference as a \<open>Duration\<close>, an \<open>int64\<close> of nanoseconds, and returns the smallest or the
  largest \<open>Duration\<close> when the difference does not fit.
\<close>

type_synonym Time = int

definition minDuration :: int where
  "minDuration = - (2 ^ 63)"

definition maxDuration :: int where
  "maxDuration = 2 ^ 63 - 1"

definition Sub :: "Time \<Rightarrow> Time \<Rightarrow> int" where
  "Sub t u =
     (let d = t - u
      in if d < minDuration then minDuration
         else if maxDuration < d then maxDuration
         else d)"

text \<open>Go's integer division and remainder, which truncate towards zero.\<close>

definition quo :: "int \<Rightarrow> int \<Rightarrow> int" where
  "quo a b = sgn a * sgn b * (\<bar>a\<bar> div \<bar>b\<bar>)"

definition rem :: "int \<Rightarrow> int \<Rightarrow> int" where
  "rem a b = a - b * quo a b"

text \<open>
  A \<open>float64\<close> is modelled by the rational number it stands for. \<open>to_float64\<close> rounds a
  rational to the nearest number with a significand of 53 bits, ties to the even
  significand, which is what every \<open>float64\<close> operation does to its exact result.
  Overflow and subnormal numbers are left out: the values that occur in \<open>Seconds\<close> are
  zero or lie between \<open>1e-9\<close> and \<open>1e10\<close> in magnitude. \<open>binade x\<close> is the exponent \<open>k\<close> with
  \<open>2 ^ k \<le> x < 2 ^ (k + 1)\<close>, for a positive \<open>x\<close>.
\<close>

definition round_half_even :: "rat \<Rightarrow> int" where
  "round_half_even q =
     (let f = \<lfloor>q\<rfloor>; r = q - of_int f
      in if r < 1 / 2 then f
         else if 1 / 2 < r then f + 1
         else if even f then f else f + 1)"

definition binade :: "rat \<Rightarrow> int" where
  "binade x =
     (case quotient_of x of
        (a, b) \<Rightarrow>
          (let k = bitlen a - bitlen b
           in if of_int a < of_int b * (2::rat) powi k then k - 1 else k))"

definition to_float64 :: "rat \<Rightarrow> rat" where
  "to_float64 x =
     (if x = 0 then 0
      else (let ulp = 2 powi (binade \<bar>x\<bar> - 52)
            in sgn x * of_int (round_half_even (\<bar>x\<bar> / ulp)) * ulp))"

definition float64_of_int :: "int \<Rightarrow> rat" where
  "float64_of_int i = to_float64 (of_int i)"

definition fadd :: "rat \<Rightarrow> rat \<Rightarrow> rat" where
  "fadd x y = to_float64 (x + y)"

definition fdiv :: "rat \<Rightarrow> rat \<Rightarrow> rat" where
  "fdiv x y = to_float64 (x / y)"

text \<open>
  \<open>Duration.Seconds\<close> of Go's \<open>time\<close> package:
  \<^verbatim>\<open>
  func (d Duration) Seconds() float64 {
      sec := d / Second
      nsec := d % Second
      return float64(sec) + float64(nsec)/1e9
  }
  \<close>
\<close>

definition Second :: int where
  "Second = 1000000000"

definition Seconds :: "int \<Rightarrow> rat" where
  "Seconds d =
     (let sec = quo d Second; nsec = rem d Second
      in fadd (float64_of_int sec) (fdiv (float64_of_int nsec) (to_float64 1000000000)))"

text \<open>
  The conversion \<open>uint64(f)\<close> of a \<open>float64\<close> discards the fraction. When the result is
  not a \<open>uint64\<close>, the value is whatever the implementation gives: the parameter
  \<open>out_of_range\<close>. \<open>saturating\<close> is one such implementation, the one of arm64.
\<close>

definition truncate_toward_zero :: "rat \<Rightarrow> int" where
  "truncate_toward_zero x = (if 0 \<le> x then \<lfloor>x\<rfloor> else \<lceil>x\<rceil>)"

definition uint64_of_float64 :: "(rat \<Rightarrow> 64 word) \<Rightarrow> rat \<Rightarrow> 64 word" where
  "uint64_of_float64 out_of_range x =
     (let t = truncate_toward_zero x
      in if 0 \<le> t \<and> t < 2 ^ 64 then word_of_int t else out_of_range x)"

definition saturating :: "rat \<Rightarrow> 64 word" where
  "saturating x = (if x < 0 then 0 else word_of_int (2 ^ 64 - 1))"

subsection \<open>History records\<close>

definition SessionStatusNew :: string where
  "SessionStatusNew = ''New''"

definition SessionStatusCompleted :: string where
  "SessionStatusCompleted = ''Completed''"

record History =
  SessionID :: string
  ProviderID_h :: Identity
  ServiceType_h :: string
  ProviderCountry :: string
  Started :: Time
  Status :: string
  Updated :: Time
  DataStats :: SessionStatistics

text \<open>
  \<^verbatim>\<open>
  // GetDuration returns delta in seconds (TimeUpdated - TimeStarted)
  func (se *History) GetDuration() uint64 {
      if se.Status == SessionStatusCompleted {
          return uint64(se.Updated.Sub(se.Started).Seconds())
      }
      return 0
  }
  \<close>
\<close>

definition GetDuration :: "(rat \<Rightarrow> 64 word) \<Rightarrow> History \<Rightarrow> 64 word" where
  "GetDuration out_of_range se =
     (if Status se = SessionStatusCompleted
      then uint64_of_float64 out_of_range (Seconds (Sub (Updated se) (Started se)))
      else 0)"

text \<open>A record for the examples, with the given status and timestamps.\<close>

definition history :: "string \<Rightarrow> Time \<Rightarrow> Time \<Rightarrow> History" where
  "history status started updated =
     \<lparr>SessionID = ''s1'', ProviderID_h = \<lparr>Address = ''0xabc''\<rparr>, ServiceType_h = ''openvpn'',
      ProviderCountry = ''LT'', Started = started, Status = status, Updated = updated,
      DataStats = \<lparr>BytesSent = 0, BytesReceived = 0\<rparr>\<rparr>"

section \<open>Properties\<close>

subsection \<open>Session tracker\<close>

lemma since_snoc:
  "since_last_disconnecting (cs @ [c]) = (if is_disconnecting c then [] else since_last_disconnecting cs @ [c])"
  by (induction cs) (auto simp: list_ex_iff)

lemma last_created_snoc:
  "last_created (cs @ [c]) = (case c of SessionCreated s \<Rightarrow> Some s | _ \<Rightarrow> last_created cs)"
  by (induction cs rule: last_created.induct) (auto split: tracker_call.splits option.splits)

lemma Reconnect_keeps_session: "session (snd (Reconnect nr d st)) = session st"
  by (simp add: Reconnect_def readSession_def split: option.splits)

lemma last_created_None: "(last_created cs = None) = (\<not> list_ex is_created cs)"
  by (induction cs rule: last_created.induct) (auto simp: is_created_def split: option.splits)

lemma session_tracker_run:
  "session (tracker_run nr calls) = last_created (since_last_disconnecting calls)"
proof (induction calls rule: rev_induct)
  case Nil
  show ?case by (simp add: tracker_run_def newSessionTracker_def)
next
  case (snoc c cs)
  then show ?case
    by (cases c)
       (auto simp: tracker_run_def since_snoc last_created_snoc is_disconnecting_def
         sessionCreated_def handleState_def writeSession_def Lock_def Unlock_def
         Reconnect_keeps_session)
qed

lemma Reconnect_fst:
  "fst (Reconnect nr d st) = (case session st of None \<Rightarrow> SessionNotCreatedYet | Some s \<Rightarrow> Forwarded (nr s d))"
  by (simp add: Reconnect_def readSession_def split: option.splits)

text \<open>
  Claim C7. After any sequence of \<open>sessionCreated\<close>, \<open>handleState\<close> and \<open>Reconnect\<close> calls on
  a new tracker, \<open>Reconnect\<close> returns the "session not created yet" error if and only if
  no \<open>sessionCreated\<close> call has occurred since the last Disconnecting event was handled;
  otherwise it calls the native \<open>Reconnect\<close> of the handle passed by the last
  \<open>sessionCreated\<close>, with the delay it was given, and returns that call's result as it
  is. Since the sequence is arbitrary, this holds of every \<open>Reconnect\<close> of a run, not of
  the first one only.
\<close>

theorem Reconnect_no_active_session_iff:
  "(fst (Reconnect nr d (tracker_run nr calls)) = SessionNotCreatedYet)
     = (\<not> created_since_last_disconnecting calls)
   \<and> (created_since_last_disconnecting calls \<longrightarrow>
        (\<exists>s. last_created (since_last_disconnecting calls) = Some s
           \<and> fst (Reconnect nr d (tracker_run nr calls)) = Forwarded (nr s d)))"
  by (auto simp: Reconnect_fst session_tracker_run created_since_last_disconnecting_def
        last_created_None [symmetric] split: option.splits)

theorem Reconnect_no_active_session_iff_witness:
  "created_since_last_disconnecting
     [SessionCreated (1::nat), ReconnectCall 3, HandleState \<lparr>State = Disconnecting\<rparr>,
      SessionCreated 2, ReconnectCall 0, HandleState \<lparr>State = Connected\<rparr>]
   \<and> fst (Reconnect (\<lambda>s d. if d < 0 then Some (''negative delay'', s) else None) (-1)
        (tracker_run (\<lambda>s d. if d < 0 then Some (''negative delay'', s) else None)
           [SessionCreated (1::nat), ReconnectCall 3, HandleState \<lparr>State = Disconnecting\<rparr>,
            SessionCreated 2, ReconnectCall 0, HandleState \<lparr>State = Connected\<rparr>]))
     = Forwarded (Some (''negative delay'', 2))
   \<and> \<not> created_since_last_disconnecting
     [SessionCreated (1::nat), ReconnectCall 3, HandleState \<lparr>State = Disconnecting\<rparr>,
      ReconnectCall 0]
   \<and> fst (Reconnect (\<lambda>s d. if d < 0 then Some (''negative delay'', s) else None) (-1)
        (tracker_run (\<lambda>s d. if d < 0 then Some (''negative delay'', s) else None)
           [SessionCreated (1::nat), ReconnectCall 3, HandleState \<lparr>State = Disconnecting\<rparr>,
            ReconnectCall 0]))
     = SessionNotCreatedYet"
  using Reconnect_no_active_session_iff
      [of "\<lambda>s d. if d < 0 then Some (''negative delay'', s) else None" "-1"
          "[SessionCreated (1::nat), ReconnectCall 3, HandleState \<lparr>State = Disconnecting\<rparr>,
            SessionCreated 2, ReconnectCall 0, HandleState \<lparr>State = Connected\<rparr>]"]
    Reconnect_no_active_session_iff
      [of "\<lambda>s d. if d < 0 then Some (''negative delay'', s) else None" "-1"
          "[SessionCreated (1::nat), ReconnectCall 3, HandleState \<lparr>State = Disconnecting\<rparr>,
            ReconnectCall 0]"]
  by (simp add: created_since_last_disconnecting_def is_created_def is_disconnecting_def)

text \<open>
  Claim C9. Every read and write of the tracker's session handle is made with the mutex
  held. The run below shows the accesses of \<open>sessionCreated\<close>, \<open>Reconnect\<close> and
  \<open>handleState\<close>: the write of \<open>sessionCreated\<close> is made under the lock, the two reads
  of \<open>Reconnect\<close> and the write of \<open>handleState\<close> are made without it.
\<close>

theorem tracker_accesses_outside_lock:
  "accesses (snd (Reconnect nr 5 (sessionCreated (Some s) newSessionTracker)))
     = [WriteSession True, ReadSession False, ReadSession False]
   \<and> accesses (handleState \<lparr>State = Disconnecting\<rparr> (sessionCreated (Some s) newSessionTracker))
     = [WriteSession True, WriteSession False]"
  by (simp add: Reconnect_def readSession_def sessionCreated_def handleState_def writeSession_def
        Lock_def Unlock_def newSessionTracker_def)

subsection \<open>Event adapter\<close>

lemma nothing_after_close_open: "Closed \<notin> set c \<Longrightarrow> nothing_after_close c"
  by (induction c rule: nothing_after_close.induct) auto

lemma nothing_after_close_append:
  "Closed \<notin> set xs \<Longrightarrow> nothing_after_close (xs @ ys) = nothing_after_close ys"
  by (induction xs rule: nothing_after_close.induct) auto

lemma chan_inv_props:
  assumes "chan_inv c"
  shows "count_list c (Sent NotConnected) \<le> 1" and "count_list c Closed \<le> 1"
    and "nothing_after_close c"
  using assms
  by (auto simp: chan_inv_def nothing_after_close_open nothing_after_close_append)

lemma OnEvent_closed:
  "is_closed (stateChannel a) \<Longrightarrow>
     OnEvent a ev = (if handled ev then Panicked SendOnClosedChannel a
                     else Ok (a\<lparr>seelog := seelog a @ [UnhandledEvent ev]\<rparr>))"
  by (simp add: OnEvent_def push_state_def send_def handled_def)

lemma OnEvent_open:
  "\<not> is_closed (stateChannel a) \<Longrightarrow>
     OnEvent a ev =
       (if Name ev = ''CONNECTING'' then Ok (a\<lparr>stateChannel := stateChannel a @ [Sent Connecting]\<rparr>)
        else if Name ev = ''CONNECTED'' then Ok (a\<lparr>stateChannel := stateChannel a @ [Sent Connected]\<rparr>)
        else if Name ev = ''DISCONNECTED'' then
          Ok (a\<lparr>stateChannel := stateChannel a @ [Sent NotConnected, Closed]\<rparr>)
        else Ok (a\<lparr>seelog := seelog a @ [UnhandledEvent ev]\<rparr>))"
  by (simp add: OnEvent_def push_state_def close_state_def send_def close_chan_def is_closed_def)

lemma OnEvents_closed:
  "is_closed (stateChannel a) \<Longrightarrow>
     stateChannel (state_of (OnEvents a evs)) = stateChannel a
     \<and> crashed (OnEvents a evs) = list_ex handled evs"
proof (induction evs arbitrary: a)
  case Nil
  show ?case by (simp add: state_of_def crashed_def)
next
  case (Cons ev evs)
  show ?case
  proof (cases "handled ev")
    case True
    with Cons.prems show ?thesis by (simp add: OnEvent_closed state_of_def crashed_def)
  next
    case False
    with Cons.prems Cons.IH [of "a\<lparr>seelog := seelog a @ [UnhandledEvent ev]\<rparr>"]
    show ?thesis by (simp add: OnEvent_closed)
  qed
qed

lemma OnEvents_open:
  "\<not> is_closed (stateChannel a) \<Longrightarrow> chan_inv (stateChannel a) \<Longrightarrow>
     chan_inv (stateChannel (state_of (OnEvents a evs)))
     \<and> crashed (OnEvents a evs) = (\<not> quiet_after_disconnected evs)"
proof (induction evs arbitrary: a)
  case Nil
  then show ?case by (simp add: state_of_def crashed_def)
next
  case (Cons ev evs)
  from Cons.prems have op: "Closed \<notin> set (stateChannel a)" "Sent NotConnected \<notin> set (stateChannel a)"
    by (auto simp: chan_inv_def is_closed_def)
  consider (dis) "Name ev = ''DISCONNECTED''"
    | (cing) "Name ev = ''CONNECTING''" | (ced) "Name ev = ''CONNECTED''"
    | (other) "\<not> handled ev"
    by (auto simp: handled_def)
  then show ?case
  proof cases
    case dis
    let ?a = "a\<lparr>stateChannel := stateChannel a @ [Sent NotConnected, Closed]\<rparr>"
    have cl: "is_closed (stateChannel ?a)" by (simp add: is_closed_def)
    have inv: "chan_inv (stateChannel ?a)" using op by (simp add: chan_inv_def)
    from dis Cons.prems have "OnEvents a (ev # evs) = OnEvents ?a evs"
      by (simp add: OnEvent_open)
    with OnEvents_closed [OF cl, of evs] inv dis show ?thesis by simp
  next
    case cing
    let ?a = "a\<lparr>stateChannel := stateChannel a @ [Sent Connecting]\<rparr>"
    have "\<not> is_closed (stateChannel ?a)" "chan_inv (stateChannel ?a)"
      using op by (simp_all add: chan_inv_def is_closed_def)
    from Cons.IH [OF this] cing Cons.prems show ?thesis by (simp add: OnEvent_open)
  next
    case ced
    let ?a = "a\<lparr>stateChannel := stateChannel a @ [Sent Connected]\<rparr>"
    have "\<not> is_closed (stateChannel ?a)" "chan_inv (stateChannel ?a)"
      using op by (simp_all add: chan_inv_def is_closed_def)
    from Cons.IH [OF this] ced Cons.prems show ?thesis by (simp add: OnEvent_open)
  next
    case other
    let ?a = "a\<lparr>seelog := seelog a @ [UnhandledEvent ev]\<rparr>"
    have "\<not> is_closed (stateChannel ?a)" "chan_inv (stateChannel ?a)"
      using Cons.prems by simp_all
    from Cons.IH [OF this] other Cons.prems show ?thesis
      by (simp add: OnEvent_open handled_def)
  qed
qed

text \<open>
  On a state channel that a "DISCONNECTED" has closed, a "CONNECTING" pushes nothing: the
  send panics and the channel is left as it was.
\<close>

theorem OnEvent_closed_channel_panics:
  "OnEvent (channelToCallbacks [Sent NotConnected, Closed] []) \<lparr>Name = ''CONNECTING''\<rparr>
     = Panicked SendOnClosedChannel (channelToCallbacks [Sent NotConnected, Closed] [])"
  by (simp add: channelToCallbacks_def OnEvent_def push_state_def send_def is_closed_def)

text \<open>
  Claim C5, as the code has it. On a state channel that is still open, an event named
  "CONNECTING" pushes exactly \<open>Connecting\<close>, "CONNECTED" pushes exactly \<open>Connected\<close>,
  "DISCONNECTED" pushes \<open>NotConnected\<close> and then closes the channel. On a state channel
  that is closed, each of these three events pushes nothing and panics on its send,
  leaving both channels and the log as they were. An event of any other name is logged
  and leaves both channels as they are, whatever their state.
\<close>

theorem OnEvent_translates:
  "(\<not> is_closed (stateChannel a) \<longrightarrow>
      (Name ev = ''CONNECTING'' \<longrightarrow>
         OnEvent a ev = Ok (a\<lparr>stateChannel := stateChannel a @ [Sent Connecting]\<rparr>))
    \<and> (Name ev = ''CONNECTED'' \<longrightarrow>
         OnEvent a ev = Ok (a\<lparr>stateChannel := stateChannel a @ [Sent Connected]\<rparr>))
    \<and> (Name ev = ''DISCONNECTED'' \<longrightarrow>
         OnEvent a ev = Ok (a\<lparr>stateChannel := stateChannel a @ [Sent NotConnected, Closed]\<rparr>)))
   \<and> (is_closed (stateChannel a) \<longrightarrow>
      (Name ev = ''CONNECTING'' \<or> Name ev = ''CONNECTED'' \<or> Name ev = ''DISCONNECTED'' \<longrightarrow>
         OnEvent a ev = Panicked SendOnClosedChannel a))
   \<and> (\<not> handled ev \<longrightarrow>
         OnEvent a ev = Ok (a\<lparr>seelog := seelog a @ [UnhandledEvent ev]\<rparr>)
       \<and> stateChannel (state_of (OnEvent a ev)) = stateChannel a
       \<and> statisticsChannel (state_of (OnEvent a ev)) = statisticsChannel a)"
  by (cases "is_closed (stateChannel a)")
     (auto simp: OnEvent_open OnEvent_closed handled_def state_of_def)

theorem OnEvent_translates_witness:
  "OnEvent (channelToCallbacks [] []) \<lparr>Name = ''CONNECTING''\<rparr>
     = Ok (channelToCallbacks [Sent Connecting] [])
   \<and> OnEvent (channelToCallbacks [Sent Connecting] []) \<lparr>Name = ''CONNECTED''\<rparr>
     = Ok (channelToCallbacks [Sent Connecting, Sent Connected] [])
   \<and> OnEvent (channelToCallbacks [Sent Connecting] []) \<lparr>Name = ''DISCONNECTED''\<rparr>
     = Ok (channelToCallbacks [Sent Connecting, Sent NotConnected, Closed] [])
   \<and> OnEvent (channelToCallbacks [Sent Connecting] []) \<lparr>Name = ''RECONNECTING''\<rparr>
     = Ok ((channelToCallbacks [Sent Connecting] [])\<lparr>seelog := [UnhandledEvent \<lparr>Name = ''RECONNECTING''\<rparr>]\<rparr>)
   \<and> OnEvent (channelToCallbacks [Sent NotConnected, Closed] []) \<lparr>Name = ''CONNECTED''\<rparr>
     = Panicked SendOnClosedChannel (channelToCallbacks [Sent NotConnected, Closed] [])"
  using OnEvent_translates [of "channelToCallbacks [] []" "\<lparr>Name = ''CONNECTING''\<rparr>"]
    OnEvent_translates [of "channelToCallbacks [Sent NotConnected, Closed] []" "\<lparr>Name = ''CONNECTED''\<rparr>"]
    OnEvent_translates [of "channelToCallbacks [Sent Connecting] []" "\<lparr>Name = ''CONNECTED''\<rparr>"]
    OnEvent_translates [of "channelToCallbacks [Sent Connecting] []" "\<lparr>Name = ''DISCONNECTED''\<rparr>"]
    OnEvent_translates [of "channelToCallbacks [Sent Connecting] []" "\<lparr>Name = ''RECONNECTING''\<rparr>"]
  by (simp add: channelToCallbacks_def is_closed_def handled_def)

text \<open>
  A second "DISCONNECTED" finds the channel closed: the send panics.
\<close>

theorem OnEvents_repeated_disconnected_crashes:
  "OnEvents (channelToCallbacks [] []) [\<lparr>Name = ''DISCONNECTED''\<rparr>, \<lparr>Name = ''DISCONNECTED''\<rparr>]
     = Panicked SendOnClosedChannel (channelToCallbacks [Sent NotConnected, Closed] [])"
  by (simp add: channelToCallbacks_def OnEvent_def push_state_def close_state_def send_def
        close_chan_def is_closed_def)

text \<open>
  Claim C6, as the code has it. For every sequence of engine events delivered to a fresh
  adapter, the state channel receives at most one \<open>NotConnected\<close>, is closed at most once
  and receives nothing after its close. The adapter crashes exactly when the engine
  sends an event the adapter handles ("CONNECTING", "CONNECTED" or "DISCONNECTED")
  after a "DISCONNECTED".
\<close>

theorem OnEvents_single_terminal:
  "count_list (stateChannel (state_of (OnEvents (channelToCallbacks [] []) events))) (Sent NotConnected) \<le> 1
   \<and> count_list (stateChannel (state_of (OnEvents (channelToCallbacks [] []) events))) Closed \<le> 1
   \<and> nothing_after_close (stateChannel (state_of (OnEvents (channelToCallbacks [] []) events)))
   \<and> crashed (OnEvents (channelToCallbacks [] []) events) = (\<not> quiet_after_disconnected events)"
proof -
  let ?a = "channelToCallbacks [] []"
  have "\<not> is_closed (stateChannel ?a)" "chan_inv (stateChannel ?a)"
    by (simp_all add: channelToCallbacks_def is_closed_def chan_inv_def)
  from OnEvents_open [OF this, of events] chan_inv_props show ?thesis by blast
qed

theorem OnEvents_single_terminal_witness:
  "count_list (stateChannel (state_of (OnEvents (channelToCallbacks [] [])
      [\<lparr>Name = ''CONNECTING''\<rparr>, \<lparr>Name = ''CONNECTED''\<rparr>, \<lparr>Name = ''DISCONNECTED''\<rparr>, \<lparr>Name = ''PAUSE''\<rparr>])))
      (Sent NotConnected) = 1
   \<and> \<not> crashed (OnEvents (channelToCallbacks [] [])
      [\<lparr>Name = ''CONNECTING''\<rparr>, \<lparr>Name = ''CONNECTED''\<rparr>, \<lparr>Name = ''DISCONNECTED''\<rparr>, \<lparr>Name = ''PAUSE''\<rparr>])"
  using OnEvents_single_terminal [of "[\<lparr>Name = ''CONNECTING''\<rparr>, \<lparr>Name = ''CONNECTED''\<rparr>, \<lparr>Name = ''DISCONNECTED''\<rparr>, \<lparr>Name = ''PAUSE''\<rparr>]"]
  by (simp add: channelToCallbacks_def OnEvent_def push_state_def close_state_def send_def
        close_chan_def is_closed_def state_of_def handled_def)

subsection \<open>Connection handle\<close>

text \<open>
  A native start that fails: \<open>Start\<close> of the wrapper still returns \<open>nil\<close>.
\<close>

theorem wrapper_Start_swallows_counterexample:
  "fst (nStart failing_native ()) = Some ''start failed''
   \<and> fst (wrapper_Start failing_native ()) = None"
  by (simp add: failing_native_def wrapper_Start_def)

text \<open>
  Claim C8, as the code has it. \<open>Start\<close> of the wrapper runs the native start and
  returns \<open>nil\<close> whatever the native start did; \<open>Wait\<close> returns the native session's
  own result.
\<close>

theorem wrapper_Start_returns_nil:
  "wrapper_Start native n = (None, snd (nStart native n))
   \<and> wrapper_Wait native n = nWait native n"
  by (simp add: wrapper_Start_def wrapper_Wait_def split: prod.splits)

subsection \<open>Service endpoint\<close>

lemma validateServiceRequest_eq:
  "validateServiceRequest sr =
     (if ProviderID sr = '''' then required_error ''providerId'' else [])
     @ (if ServiceType sr = '''' then required_error ''serviceType'' else [])"
  by (simp add: validateServiceRequest_def NewErrorMap_def ForField_AddError_def required_error_def)

lemma toServiceRequest_fields:
  "toServiceRequest se (Inr jd) = Inr sr \<Longrightarrow>
     ProviderID sr = ProviderID_j jd \<and> ServiceType sr = ServiceType_j jd"
  by (auto simp: toServiceRequest_def Let_def split: option.splits sum.splits)

lemma toServiceRequest_accepts:
  "Options_j jd = None
     \<or> (\<exists>raw parser opts. Options_j jd = Some raw
           \<and> optionsParser se (ServiceType_j jd) = Some parser \<and> parser raw = Inr opts)
   \<Longrightarrow> \<exists>sr. toServiceRequest se (Inr jd) = Inr sr"
  by (auto simp: toServiceRequest_def Let_def split: option.splits sum.splits)

lemma ServiceStart_validation_error:
  assumes "Options_j jd = None
     \<or> (\<exists>raw parser opts. Options_j jd = Some raw
           \<and> optionsParser se (ServiceType_j jd) = Some parser \<and> parser raw = Inr opts)"
    and "ProviderID_j jd = '''' \<or> ServiceType_j jd = ''''"
  shows "ServiceStart se FromAddress m (Inr jd) =
     (SendValidationErrorMessage
        ((if ProviderID_j jd = '''' then required_error ''providerId'' else [])
         @ (if ServiceType_j jd = '''' then required_error ''serviceType'' else [])),
      [], m)"
proof -
  from toServiceRequest_accepts [OF assms(1)]
  obtain sr where sr: "toServiceRequest se (Inr jd) = Inr sr" by blast
  from toServiceRequest_fields [OF sr]
  have f: "ProviderID sr = ProviderID_j jd" "ServiceType sr = ServiceType_j jd" by simp_all
  have "HasErrors (validateServiceRequest sr)"
    using assms(2) f by (auto simp: validateServiceRequest_eq HasErrors_def required_error_def)
  then show ?thesis
    using sr f by (simp add: ServiceStart_def Let_def validateServiceRequest_eq)
qed

lemma ServiceStart_options_rejected:
  "Options_j jd = Some raw \<Longrightarrow> optionsParser se (ServiceType_j jd) = None \<Longrightarrow>
     ServiceStart se FromAddress m (Inr jd)
       = (SendError (NewError ''Invalid service type'') StatusBadRequest, [], m)"
  "Options_j jd = Some raw \<Longrightarrow> optionsParser se (ServiceType_j jd) = Some parser \<Longrightarrow>
     parser raw = Inl e \<Longrightarrow>
     ServiceStart se FromAddress m (Inr jd)
       = (SendError (NewError ''Invalid options'') StatusBadRequest, [], m)"
  by (simp_all add: ServiceStart_def toServiceRequest_def)

text \<open>
  Claim C1, as the code has it. A Start request whose body decodes, in which
  \<open>providerId\<close>, \<open>serviceType\<close> or both are missing, and which either carries no options
  payload or carries one that the parser registered for its service type accepts, gets
  the validation error that lists exactly the missing fields, each with the one error
  "required"; the service manager is not called. A request that carries an options
  payload gets a plain error with status 400, which lists no field, when no parser is
  registered for its service type ("Invalid service type") or when the parser rejects
  the payload ("Invalid options"), whether or not a field is missing; the service manager
  is not called either.
\<close>

theorem ServiceStart_missing_fields:
  "((Options_j jd = None
      \<or> (\<exists>raw parser opts. Options_j jd = Some raw
            \<and> optionsParser se (ServiceType_j jd) = Some parser \<and> parser raw = Inr opts))
     \<and> (ProviderID_j jd = '''' \<or> ServiceType_j jd = '''') \<longrightarrow>
     ServiceStart se FromAddress m (Inr jd) =
       (SendValidationErrorMessage
          ((if ProviderID_j jd = '''' then required_error ''providerId'' else [])
           @ (if ServiceType_j jd = '''' then required_error ''serviceType'' else [])),
        [], m))
   \<and> (Options_j jd = Some raw \<and> optionsParser se (ServiceType_j jd) = None \<longrightarrow>
     ServiceStart se FromAddress m (Inr jd)
       = (SendError (NewError ''Invalid service type'') StatusBadRequest, [], m))
   \<and> (Options_j jd = Some raw \<and> optionsParser se (ServiceType_j jd) = Some parser
        \<and> parser raw = Inl e \<longrightarrow>
     ServiceStart se FromAddress m (Inr jd)
       = (SendError (NewError ''Invalid options'') StatusBadRequest, [], m))"
  using ServiceStart_validation_error [of jd se FromAddress m]
    ServiceStart_options_rejected(1) [where jd = jd and raw = raw and se = se
      and FromAddress = FromAddress and m = m]
    ServiceStart_options_rejected(2) [where jd = jd and raw = raw and se = se
      and FromAddress = FromAddress and m = m and parser = parser and e = e]
  by blast

theorem ServiceStart_missing_fields_witness:
  "ServiceStart example_endpoint (\<lambda>a. \<lparr>Address = a\<rparr>) []
      (Inr \<lparr>ProviderID_j = '''', ServiceType_j = ''wireguard'', Options_j = Some ''{}''\<rparr>)
     = (SendValidationErrorMessage [(''providerId'', [(''required'', ''Field is required'')])], [], [])
   \<and> ServiceStart example_endpoint (\<lambda>a. \<lparr>Address = a\<rparr>) []
      (Inr \<lparr>ProviderID_j = '''', ServiceType_j = '''', Options_j = None\<rparr>)
     = (SendValidationErrorMessage
          [(''providerId'', [(''required'', ''Field is required'')]),
           (''serviceType'', [(''required'', ''Field is required'')])], [], [])
   \<and> ServiceStart example_endpoint (\<lambda>a. \<lparr>Address = a\<rparr>) []
      (Inr \<lparr>ProviderID_j = '''', ServiceType_j = ''openvpn'', Options_j = Some ''{}''\<rparr>)
     = (SendError (NewError ''Invalid service type'') 400, [], [])
   \<and> ServiceStart example_endpoint (\<lambda>a. \<lparr>Address = a\<rparr>) []
      (Inr \<lparr>ProviderID_j = ''0xabc'', ServiceType_j = ''wireguard'', Options_j = Some ''[2]''\<rparr>)
     = (SendError (NewError ''Invalid options'') 400, [], [])"
  using ServiceStart_missing_fields
      [where jd = "\<lparr>ProviderID_j = '''', ServiceType_j = ''wireguard'', Options_j = Some ''{}''\<rparr>"
         and se = example_endpoint and FromAddress = "\<lambda>a. \<lparr>Address = a\<rparr>" and m = "[]"
         and raw = "''{}''"
         and parser = "\<lambda>raw. if raw = ''{}'' then Inr raw else Inl (OtherError ''unexpected option'')"
         and e = "OtherError ''unexpected option''"]
    ServiceStart_missing_fields
      [where jd = "\<lparr>ProviderID_j = '''', ServiceType_j = '''', Options_j = None\<rparr>"
         and se = example_endpoint and FromAddress = "\<lambda>a. \<lparr>Address = a\<rparr>" and m = "[]"
         and raw = "''{}''"
         and parser = "\<lambda>raw. if raw = ''{}'' then Inr raw else Inl (OtherError ''unexpected option'')"
         and e = "OtherError ''unexpected option''"]
    ServiceStart_missing_fields
      [where jd = "\<lparr>ProviderID_j = '''', ServiceType_j = ''openvpn'', Options_j = Some ''{}''\<rparr>"
         and se = example_endpoint and FromAddress = "\<lambda>a. \<lparr>Address = a\<rparr>" and m = "[]"
         and raw = "''{}''"
         and parser = "\<lambda>raw. if raw = ''{}'' then Inr raw else Inl (OtherError ''unexpected option'')"
         and e = "OtherError ''unexpected option''"]
    ServiceStart_missing_fields
      [where jd = "\<lparr>ProviderID_j = ''0xabc'', ServiceType_j = ''wireguard'', Options_j = Some ''[2]''\<rparr>"
         and se = example_endpoint and FromAddress = "\<lambda>a. \<lparr>Address = a\<rparr>" and m = "[]"
         and raw = "''[2]''"
         and parser = "\<lambda>raw. if raw = ''{}'' then Inr raw else Inl (OtherError ''unexpected option'')"
         and e = "OtherError ''unexpected option''"]
  by (simp add: example_endpoint_def required_error_def StatusBadRequest_def)

text \<open>
  The options payload is parsed before the request is validated: with a payload and no
  service type, or with a payload the parser rejects, the response is a plain error with
  status 400 and no field is listed.
\<close>

theorem ServiceStart_options_before_validation:
  "ServiceStart example_endpoint (\<lambda>a. \<lparr>Address = a\<rparr>) []
      (Inr \<lparr>ProviderID_j = ''0xabc'', ServiceType_j = '''', Options_j = Some ''{}''\<rparr>)
     = (SendError (NewError ''Invalid service type'') 400, [], [])
   \<and> ServiceStart example_endpoint (\<lambda>a. \<lparr>Address = a\<rparr>) []
      (Inr \<lparr>ProviderID_j = '''', ServiceType_j = ''wireguard'', Options_j = Some ''[1]''\<rparr>)
     = (SendError (NewError ''Invalid options'') 400, [], [])"
  by (simp add: ServiceStart_def toServiceRequest_def example_endpoint_def StatusBadRequest_def)

lemma isAlreadyRunning_range_iff:
  "isAlreadyRunning_range l sr =
     (\<exists>(i, inst) \<in> set l. ProviderID_p (Proposal_i inst) = ProviderID sr
        \<and> ServiceType_p (Proposal_i inst) = ServiceType sr)"
  by (induction l sr rule: isAlreadyRunning_range.induct) (auto simp: Let_def)

text \<open>
  Claim C2. For a Start request that \<open>toServiceRequest\<close> accepts and that passes
  validation, with provider identity P and service type T: if the service manager's list
  holds an instance whose proposal has provider identity P and service type T and whose
  state is \<open>Running\<close>, then \<open>ServiceStart\<close> answers "Service already running" with status
  409, whatever else the list holds, and its only call to the manager is \<open>List\<close>: \<open>Start\<close>
  is not called and the manager's state is unchanged.
\<close>

theorem ServiceStart_conflict:
  assumes "toServiceRequest se req = Inr sr"
    and "\<not> HasErrors (validateServiceRequest sr)"
    and "(i, inst) \<in> set (List_m (serviceManager se) m)"
    and "ProviderID_p (Proposal_i inst) = ProviderID sr"
    and "ServiceType_p (Proposal_i inst) = ServiceType sr"
    and "State_i inst = Running"
  shows "ServiceStart se FromAddress m req
     = (SendErrorMessage ''Service already running'' StatusConflict, [CallList], m)
   \<and> \<not> list_ex is_CallStart (fst (snd (ServiceStart se FromAddress m req)))"
proof -
  have "isAlreadyRunning se m sr"
    unfolding isAlreadyRunning_def isAlreadyRunning_range_iff using assms(3-5) by blast
  with assms(1,2) show ?thesis
    by (simp add: ServiceStart_def Let_def is_CallStart_def)
qed

theorem ServiceStart_conflict_witness:
  "ServiceStart example_endpoint (\<lambda>a. \<lparr>Address = a\<rparr>) two_services
      (Inr \<lparr>ProviderID_j = ''0xabc'', ServiceType_j = ''wireguard'', Options_j = None\<rparr>)
     = (SendErrorMessage ''Service already running'' 409, [CallList], two_services)"
proof -
  let ?jd = "\<lparr>ProviderID_j = ''0xabc'', ServiceType_j = ''wireguard'', Options_j = None\<rparr>"
  let ?sr = "\<lparr>ProviderID = ''0xabc'', Passphrase = '''', ServiceType = ''wireguard'',
              Options = None :: string option\<rparr>"
  let ?inst = "\<lparr>Proposal_i = \<lparr>ProviderID_p = ''0xabc'', ServiceType_p = ''wireguard''\<rparr>, State_i = Running\<rparr>"
  have 1: "toServiceRequest example_endpoint (Inr ?jd) = Inr ?sr"
    by (simp add: toServiceRequest_def)
  have 2: "\<not> HasErrors (validateServiceRequest ?sr)"
    by (simp add: validateServiceRequest_def NewErrorMap_def HasErrors_def)
  have 3: "(''ii'', ?inst) \<in> set (List_m (serviceManager example_endpoint) two_services)"
    by (simp add: example_endpoint_def example_manager_def two_services_def)
  from ServiceStart_conflict [OF 1 2 3, of "\<lambda>a. \<lparr>Address = a\<rparr>"]
  show ?thesis by (simp add: StatusConflict_def)
qed

subsection \<open>Provider mode\<close>

lemma Split_activeServices:
  "Split ''wireguard,scraping,data_transfer'' CHR '','' = [''wireguard'', ''scraping'', ''data_transfer'']"
  by simp

lemma StartProvider_range_outcome:
  "StartProvider_range mb providerID types m = (logged, calls, m') \<Longrightarrow>
     (\<forall>c \<in> set calls. identity_c c = \<lparr>Address = providerID\<rparr>
        \<and> (\<exists>opts. GetStartOptions mb (serviceType_c c) = Inr opts
              \<and> accessPolicyList_c c = AccessPolicyList opts
              \<and> typeOptions_c c = TypeOptions opts))
     \<and> map serviceType_c calls = take (length calls) types
     \<and> ((logged = [] \<and> length calls = length types \<and> list_all was_started calls)
        \<or> (\<exists>e. logged = [Error e ''GetStartOptions failed''] \<and> length calls < length types
               \<and> GetStartOptions mb (types ! length calls) = Inl e \<and> list_all was_started calls)
        \<or> (\<exists>e. logged = [Error e ''servicesManager.Start failed''] \<and> calls \<noteq> []
               \<and> result_c (last calls) = Inl e \<and> list_all was_started (butlast calls)))"
proof (induction types arbitrary: m logged calls m')
  case Nil
  then show ?case by simp
next
  case (Cons t ts)
  show ?case
  proof (cases "GetStartOptions mb t")
    case (Inl err)
    with Cons.prems show ?thesis by auto
  next
    case (Inr opts)
    obtain r m1 where st: "servicesManager_Start mb m \<lparr>Address = providerID\<rparr> t
        (AccessPolicyList opts) (TypeOptions opts) = (r, m1)"
      by (cases "servicesManager_Start mb m \<lparr>Address = providerID\<rparr> t
        (AccessPolicyList opts) (TypeOptions opts)")
    show ?thesis
    proof (cases r)
      case (Inl err)
      with Cons.prems Inr st show ?thesis by (auto simp: Let_def)
    next
      case r: (Inr sid)
      obtain l2 c2 m2 where rest: "StartProvider_range mb providerID ts m1 = (l2, c2, m2)"
        by (cases "StartProvider_range mb providerID ts m1") auto
      let ?call = "\<lparr>identity_c = \<lparr>Address = providerID\<rparr>, serviceType_c = t,
          accessPolicyList_c = AccessPolicyList opts, typeOptions_c = TypeOptions opts,
          result_c = Inr sid :: error + ID\<rparr>"
      from Cons.prems Inr st r rest
      have eq: "logged = l2" "calls = ?call # c2" "m' = m2" by (simp_all add: Let_def)
      have sc: "was_started ?call" by (simp add: was_started_def)
      note IH = Cons.IH [OF rest]
      from IH Inr have 1: "\<forall>c \<in> set calls. identity_c c = \<lparr>Address = providerID\<rparr>
          \<and> (\<exists>opts. GetStartOptions mb (serviceType_c c) = Inr opts
                \<and> accessPolicyList_c c = AccessPolicyList opts
                \<and> typeOptions_c c = TypeOptions opts)"
        unfolding eq by simp
      from IH have 2: "map serviceType_c calls = take (length calls) (t # ts)"
        unfolding eq by simp
      from IH consider
          (all) "l2 = []" "length c2 = length ts" "list_all was_started c2"
        | (opts) e where "l2 = [Error e ''GetStartOptions failed'']" "length c2 < length ts"
            "GetStartOptions mb (ts ! length c2) = Inl e" "list_all was_started c2"
        | (start) e where "l2 = [Error e ''servicesManager.Start failed'']" "c2 \<noteq> []"
            "result_c (last c2) = Inl e" "list_all was_started (butlast c2)"
        by blast
      then have 3: "(logged = [] \<and> length calls = length (t # ts) \<and> list_all was_started calls)
        \<or> (\<exists>e. logged = [Error e ''GetStartOptions failed''] \<and> length calls < length (t # ts)
               \<and> GetStartOptions mb ((t # ts) ! length calls) = Inl e \<and> list_all was_started calls)
        \<or> (\<exists>e. logged = [Error e ''servicesManager.Start failed''] \<and> calls \<noteq> []
               \<and> result_c (last calls) = Inl e \<and> list_all was_started (butlast calls))"
      proof cases
        case all
        then show ?thesis unfolding eq using sc by simp
      next
        case opts
        then show ?thesis unfolding eq using sc by simp
      next
        case start
        then show ?thesis unfolding eq using sc by simp
      qed
      from 1 2 3 show ?thesis by blast
    qed
  qed
qed

text \<open>
  The identity cannot be unlocked and the manager refuses the empty identity: the first
  \<open>Start\<close> call fails, and "scraping" and "data_transfer" are never passed to \<open>Start\<close>.
\<close>

theorem StartProvider_stops_at_first_failure:
  "StartProvider refusing_node 0 =
     ([Info ''Unlocked identity: '', Error (OtherError ''no identity'') ''servicesManager.Start failed''],
      [\<lparr>identity_c = \<lparr>Address = ''''\<rparr>, serviceType_c = ''wireguard'', accessPolicyList_c = (),
        typeOptions_c = (), result_c = Inl (OtherError ''no identity'')\<rparr>],
      0)"
  by (simp add: StartProvider_def unlockIdentity_def refusing_node_def locked_node_def Let_def)

text \<open>
  Claim C10, as the code has it. If unlocking the configured identity fails,
  \<open>unlockIdentity\<close> returns the empty string and \<open>StartProvider\<close> does not stop there: it
  logs the empty identity and goes through the fixed list "wireguard", "scraping",
  "data_transfer" in order, and every call it makes to the manager's \<open>Start\<close> carries the
  identity whose address is the empty string and the options that \<open>GetStartOptions\<close> has
  returned for the type. Then one of three things happens. No call
  fails: every type of the list is started and nothing more is logged. Or
  \<open>GetStartOptions\<close> fails for a type: the failure is logged, the types before it have
  been started, and neither that type nor a later one is passed to \<open>Start\<close>. Or a \<open>Start\<close>
  call fails: the failure is logged, the types before it have been started, and no later
  type is passed to \<open>Start\<close>.
\<close>

theorem StartProvider_unlock_failure:
  assumes "UseOrCreate mb (FlagIdentity mb) (FlagIdentityPassphrase mb) (FlagChainID mb) = Inl err"
    and "StartProvider mb m = (logged, calls, m')"
  shows "unlockIdentity mb (FlagIdentity mb) (FlagIdentityPassphrase mb) = ''''
   \<and> (\<forall>c \<in> set calls. identity_c c = \<lparr>Address = ''''\<rparr>
        \<and> (\<exists>opts. GetStartOptions mb (serviceType_c c) = Inr opts
              \<and> accessPolicyList_c c = AccessPolicyList opts
              \<and> typeOptions_c c = TypeOptions opts))
   \<and> map serviceType_c calls = take (length calls) [''wireguard'', ''scraping'', ''data_transfer'']
   \<and> ((logged = [Info ''Unlocked identity: '']
         \<and> map serviceType_c calls = [''wireguard'', ''scraping'', ''data_transfer'']
         \<and> list_all was_started calls)
      \<or> (\<exists>e. logged = [Info ''Unlocked identity: '', Error e ''GetStartOptions failed'']
            \<and> length calls < 3
            \<and> GetStartOptions mb ([''wireguard'', ''scraping'', ''data_transfer''] ! length calls) = Inl e
            \<and> list_all was_started calls)
      \<or> (\<exists>e. logged = [Info ''Unlocked identity: '', Error e ''servicesManager.Start failed'']
            \<and> calls \<noteq> [] \<and> result_c (last calls) = Inl e
            \<and> list_all was_started (butlast calls)))"
proof -
  let ?types = "[''wireguard'', ''scraping'', ''data_transfer'']"
  have u: "unlockIdentity mb (FlagIdentity mb) (FlagIdentityPassphrase mb) = ''''"
    using assms(1) by (simp add: unlockIdentity_def)
  obtain l c m2 where r: "StartProvider_range mb '''' ?types m = (l, c, m2)"
    by (cases "StartProvider_range mb '''' ?types m") auto
  have sp: "StartProvider mb m = (Info ''Unlocked identity: '' # l, c, m2)"
    unfolding StartProvider_def u Let_def Split_activeServices r by simp
  with assms(2) have eq: "logged = Info ''Unlocked identity: '' # l" "calls = c" "m' = m2"
    by simp_all
  note O = StartProvider_range_outcome [OF r]
  from O have 1: "\<forall>x \<in> set c. identity_c x = \<lparr>Address = ''''\<rparr>
      \<and> (\<exists>opts. GetStartOptions mb (serviceType_c x) = Inr opts
            \<and> accessPolicyList_c x = AccessPolicyList opts
            \<and> typeOptions_c x = TypeOptions opts)" by blast
  from O have 2: "map serviceType_c c = take (length c) ?types" by blast
  from O consider
      (all) "l = []" "length c = length ?types" "list_all was_started c"
    | (opts) e where "l = [Error e ''GetStartOptions failed'']" "length c < length ?types"
        "GetStartOptions mb (?types ! length c) = Inl e" "list_all was_started c"
    | (start) e where "l = [Error e ''servicesManager.Start failed'']" "c \<noteq> []"
        "result_c (last c) = Inl e" "list_all was_started (butlast c)"
    by blast
  then show ?thesis
  proof cases
    case all
    with 2 have "map serviceType_c c = ?types" by simp
    with all u 1 2 show ?thesis unfolding eq by simp
  next
    case opts
    with u 1 2 show ?thesis unfolding eq by simp
  next
    case start
    with u 1 2 show ?thesis unfolding eq by simp
  qed
qed

theorem StartProvider_unlock_failure_witness:
  "StartProvider locked_node 0 =
     ([Info ''Unlocked identity: ''],
      [\<lparr>identity_c = \<lparr>Address = ''''\<rparr>, serviceType_c = ''wireguard'', accessPolicyList_c = (),
        typeOptions_c = (), result_c = Inr ''id''\<rparr>,
       \<lparr>identity_c = \<lparr>Address = ''''\<rparr>, serviceType_c = ''scraping'', accessPolicyList_c = (),
        typeOptions_c = (), result_c = Inr ''id''\<rparr>,
       \<lparr>identity_c = \<lparr>Address = ''''\<rparr>, serviceType_c = ''data_transfer'', accessPolicyList_c = (),
        typeOptions_c = (), result_c = Inr ''id''\<rparr>],
      3)"
proof -
  have 1: "UseOrCreate locked_node (FlagIdentity locked_node) (FlagIdentityPassphrase locked_node)
      (FlagChainID locked_node) = Inl (OtherError ''wrong passphrase'')"
    by (simp add: locked_node_def)
  obtain l c m2 where r: "StartProvider locked_node 0 = (l, c, m2)"
    by (cases "StartProvider locked_node 0") auto
  from StartProvider_unlock_failure [OF 1 r]
  have "unlockIdentity locked_node (FlagIdentity locked_node) (FlagIdentityPassphrase locked_node) = ''''"
    by blast
  then show ?thesis
    by (simp add: StartProvider_def locked_node_def Let_def numeral_3_eq_3)
qed

subsection \<open>Rounding to \<open>float64\<close>\<close>

lemma round_half_even_cases:
  "round_half_even q = \<lfloor>q\<rfloor> \<or> (round_half_even q = \<lfloor>q\<rfloor> + 1 \<and> 1 / 2 \<le> q - of_int \<lfloor>q\<rfloor>)"
  by (auto simp: round_half_even_def Let_def)

lemma round_half_even_ge: "of_int n \<le> q \<Longrightarrow> n \<le> round_half_even q"
proof -
  assume "of_int n \<le> q"
  then have "n \<le> \<lfloor>q\<rfloor>" by (simp add: le_floor_iff)
  with round_half_even_cases [of q] show ?thesis by linarith
qed

lemma round_half_even_le: "q \<le> of_int n \<Longrightarrow> round_half_even q \<le> n"
proof -
  assume a: "q \<le> of_int n"
  then have f: "\<lfloor>q\<rfloor> \<le> n" by (simp add: floor_le_iff) 
  show ?thesis
  proof (cases "\<lfloor>q\<rfloor> = n")
    case True
    then have "of_int n \<le> q" by (metis of_int_floor_le)
    with a have "q = of_int n" by simp
    then show ?thesis by (simp add: round_half_even_def)
  next
    case False
    with f have "\<lfloor>q\<rfloor> + 1 \<le> n" by simp
    with round_half_even_cases [of q] show ?thesis by linarith
  qed
qed

lemma round_half_even_less: "q < of_int n - 1 / 2 \<Longrightarrow> round_half_even q < n"
proof -
  assume a: "q < of_int n - 1 / 2"
  have "of_int \<lfloor>q\<rfloor> \<le> q" by simp
  with a have "(of_int \<lfloor>q\<rfloor> :: rat) < of_int n" by linarith
  then have f: "\<lfloor>q\<rfloor> < n" by simp
  show ?thesis
  proof (cases "\<lfloor>q\<rfloor> = n - 1")
    case True
    then have "q - of_int \<lfloor>q\<rfloor> < 1 / 2" using a by simp
    with round_half_even_cases [of q] True show ?thesis by linarith
  next
    case False
    with f have "\<lfloor>q\<rfloor> + 1 < n" by simp
    with round_half_even_cases [of q] show ?thesis by linarith
  qed
qed

lemma round_half_even_of_int: "round_half_even (of_int n) = n"
  by (simp add: round_half_even_def)

lemma rat_pos_quotient:
  assumes "0 < x"
  obtains a b where "quotient_of x = (a, b)" "0 < a" "0 < b" "x = of_int a / of_int b"
proof -
  obtain a b where q: "quotient_of x = (a, b)" by (cases "quotient_of x")
  then have b: "0 < b" by (rule quotient_of_denom_pos)
  from q have x: "x = of_int a / of_int b" by (rule quotient_of_div)
  with assms b have "0 < a" by (simp add: zero_less_divide_iff)
  with q b x that show thesis by blast
qed

lemma bitlen_powi_bounds:
  assumes "0 < a"
  shows "(2::rat) powi (bitlen a - 1) \<le> of_int a" and "of_int a < (2::rat) powi bitlen a"
proof -
  from assms have b1: "1 \<le> bitlen a" by (auto simp: bitlen_alt_def)
  from bitlen_bounds [OF assms]
  have lo: "2 ^ nat (bitlen a - 1) \<le> a" and hi: "a < 2 ^ nat (bitlen a)" by simp_all
  from lo have "(of_int (2 ^ nat (bitlen a - 1)) :: rat) \<le> of_int a" by (simp only: of_int_le_iff)
  then show "(2::rat) powi (bitlen a - 1) \<le> of_int a"
    using b1 by (simp add: power_int_def)
  from hi have "(of_int a :: rat) < of_int (2 ^ nat (bitlen a))" by (simp only: of_int_less_iff)
  then show "of_int a < (2::rat) powi bitlen a"
    using b1 by (simp add: power_int_def)
qed

lemma binade_bounds:
  assumes "0 < x"
  shows "2 powi binade x \<le> x" and "x < 2 powi (binade x + 1)"
proof -
  from assms obtain a b where q: "quotient_of x = (a, b)" and a: "0 < a" and b: "0 < b"
    and x: "x = of_int a / of_int b" by (rule rat_pos_quotient)
  define k where "k = bitlen a - bitlen b"
  have bpos: "(0::rat) < of_int b" using b by simp
  note A = bitlen_powi_bounds [OF a] and B = bitlen_powi_bounds [OF b]
  have up: "x < 2 powi (k + 1)"
  proof -
    have "of_int a < (2::rat) powi bitlen a" by (rule A)
    also have "\<dots> = 2 powi (k + 1) * 2 powi (bitlen b - 1)"
      by (simp add: k_def power_int_add [symmetric])
    also have "\<dots> \<le> 2 powi (k + 1) * of_int b"
      using B(1) by (simp add: mult_left_mono)
    finally show ?thesis using bpos by (simp add: x pos_divide_less_eq)
  qed
  have lo: "2 powi (k - 1) \<le> x"
  proof -
    have "(2::rat) powi (k - 1) * of_int b \<le> 2 powi (k - 1) * 2 powi bitlen b"
      using B(2) by (simp add: mult_left_mono)
    also have "\<dots> = 2 powi (bitlen a - 1)"
      by (simp add: k_def power_int_add [symmetric])
    also have "\<dots> \<le> of_int a" by (rule A)
    finally show ?thesis using bpos by (simp add: x pos_le_divide_eq)
  qed
  show "2 powi binade x \<le> x"
  proof (cases "of_int a < of_int b * (2::rat) powi k")
    case True
    then have "binade x = k - 1" by (simp add: binade_def q k_def)
    with lo show ?thesis by simp
  next
    case False
    then have "binade x = k" by (simp add: binade_def q k_def)
    moreover from False bpos have "2 powi k \<le> x"
      by (simp add: x pos_le_divide_eq mult.commute)
    ultimately show ?thesis by simp
  qed
  show "x < 2 powi (binade x + 1)"
  proof (cases "of_int a < of_int b * (2::rat) powi k")
    case True
    then have "binade x = k - 1" by (simp add: binade_def q k_def)
    moreover from True bpos have "x < 2 powi k"
      by (simp add: x pos_divide_less_eq mult.commute)
    ultimately show ?thesis by simp
  next
    case False
    then have "binade x = k" by (simp add: binade_def q k_def)
    with up show ?thesis by simp
  qed
qed

lemma two_powi_less_imp: "(2::rat) powi m < 2 powi n \<Longrightarrow> m < n"
proof (rule ccontr)
  assume a: "(2::rat) powi m < 2 powi n" and "\<not> m < n"
  then have "n \<le> m" by simp
  then have "(2::rat) powi n \<le> 2 powi m" by (rule power_int_increasing) simp
  with a show False by simp
qed

lemma binade_eq:
  assumes "0 < x" and "2 powi k \<le> x" and "x < 2 powi (k + 1)"
  shows "binade x = k"
proof -
  from binade_bounds [OF assms(1)]
  have b: "2 powi binade x \<le> x" "x < 2 powi (binade x + 1)" by simp_all
  from assms(2) b(2) have "(2::rat) powi k < 2 powi (binade x + 1)" by simp
  then have 1: "k < binade x + 1" by (rule two_powi_less_imp)
  from b(1) assms(3) have "(2::rat) powi binade x < 2 powi (k + 1)" by simp
  then have 2: "binade x < k + 1" by (rule two_powi_less_imp)
  from 1 2 show ?thesis by simp
qed

lemma to_float64_binade:
  assumes "0 < x" and "2 powi k \<le> x" and "x < 2 powi (k + 1)"
  shows "to_float64 x = of_int (round_half_even (x * 2 powi (52 - k))) * 2 powi (k - 52)"
proof -
  have "binade x = k" using assms by (rule binade_eq)
  moreover have "x / 2 powi (k - 52) = x * 2 powi (52 - k)"
    by (simp add: power_int_diff)
  ultimately show ?thesis using assms(1) by (simp add: to_float64_def Let_def)
qed

lemma to_float64_of_int:
  assumes "0 \<le> n" and "n < 2 ^ 53"
  shows "to_float64 (of_int n) = of_int n"
proof (cases "n = 0")
  case True
  then show ?thesis by (simp add: to_float64_def)
next
  case False
  with assms have pos: "(0::rat) < of_int n" by simp
  define k where "k = binade (of_int n)"
  from binade_bounds [OF pos]
  have b: "2 powi k \<le> (of_int n :: rat)" "(of_int n :: rat) < 2 powi (k + 1)"
    by (simp_all add: k_def)
  have "(of_int n :: rat) < of_int (2 ^ 53)" using assms(2) by (simp only: of_int_less_iff)
  then have "(of_int n :: rat) < 2 powi 53" by simp
  with b(1) have "(2::rat) powi k < 2 powi 53" by simp
  then have k: "k < 53" by (rule two_powi_less_imp)
  then have "(2::rat) powi (52 - k) = of_int (2 ^ nat (52 - k))"
    by (simp add: power_int_def)
  then have "of_int n * (2::rat) powi (52 - k) = of_int (n * 2 ^ nat (52 - k))" by simp
  then have "round_half_even (of_int n * 2 powi (52 - k)) = n * 2 ^ nat (52 - k)"
    by (simp only: round_half_even_of_int)
  with to_float64_binade [OF pos b] have "to_float64 (of_int n) = of_int (n * 2 ^ nat (52 - k)) * 2 powi (k - 52)"
    by simp
  also have "\<dots> = of_int n * (2 powi (52 - k) * 2 powi (k - 52))"
    using k by (simp add: power_int_def)
  also have "2 powi (52 - k) * 2 powi (k - 52) = (1::rat)"
    by (simp add: power_int_add [symmetric])
  finally show ?thesis by simp
qed

lemma two_powi_nat: "0 \<le> k \<Longrightarrow> (2::rat) powi k = of_int (2 ^ nat k)"
  by (simp add: power_int_def)

lemma fdiv_nsec_bounds:
  assumes "0 \<le> n" and "n < 1000000000"
  shows "0 \<le> to_float64 (of_int n / 1000000000)"
    and "to_float64 (of_int n / 1000000000) \<le> 1 - 1 / 2 ^ 30 - 1 / 2 ^ 40"
proof -
  let ?y = "of_int n / 1000000000 :: rat"
  let ?M = "2 ^ 40 - 2 ^ 10 - 1 :: int"
  have main: "0 \<le> to_float64 ?y \<and> to_float64 ?y \<le> 1 - 1 / 2 ^ 30 - 1 / 2 ^ 40"
  proof (cases "n = 0")
    case True
    then show ?thesis by (simp add: to_float64_def)
  next
    case False
    with assms(1) have pos: "0 < ?y" by simp
    define k where "k = binade ?y"
    from binade_bounds [OF pos]
    have b: "2 powi k \<le> ?y" "?y < 2 powi (k + 1)" by (simp_all add: k_def)
    from assms(2) have "n \<le> 999999999" by simp
    then have "(of_int n :: rat) \<le> 999999999" by (metis of_int_le_iff of_int_numeral)
    then have yc: "?y \<le> of_int ?M / 2 ^ 40" by simp
    then have "?y < 2 powi 0" by simp
    with b(1) have "(2::rat) powi k < 2 powi 0" by (rule le_less_trans)
    then have k: "k < 0" by (rule two_powi_less_imp)
    define e where "e = nat (12 - k)"
    have sc: "(2::rat) powi (52 - k) = 2 ^ 40 * of_int (2 ^ e)"
    proof -
      have "(2::rat) powi (40 + (12 - k)) = 2 powi 40 * 2 powi (12 - k)"
        by (rule power_int_add) simp
      then have "(2::rat) powi (52 - k) = 2 powi 40 * 2 powi (12 - k)"
        by (simp add: algebra_simps)
      with k show ?thesis by (simp add: two_powi_nat e_def)
    qed
    have r: "to_float64 ?y = of_int (round_half_even (?y * 2 powi (52 - k))) * 2 powi (k - 52)"
      using pos b by (rule to_float64_binade)
    have sp: "(0::rat) < 2 powi (52 - k)" by simp
    have "?y * 2 powi (52 - k) \<le> (of_int ?M / 2 ^ 40) * 2 powi (52 - k)"
      using yc sp by (simp only: mult_right_mono less_imp_le)
    also have "\<dots> = of_int (?M * 2 ^ e)" by (simp add: sc)
    finally have "round_half_even (?y * 2 powi (52 - k)) \<le> ?M * 2 ^ e"
      by (rule round_half_even_le)
    then have "(of_int (round_half_even (?y * 2 powi (52 - k))) :: rat) \<le> of_int (?M * 2 ^ e)"
      by (simp only: of_int_le_iff)
    then have "to_float64 ?y \<le> of_int (?M * 2 ^ e) * 2 powi (k - 52)"
      unfolding r by (simp add: mult_right_mono)
    also have "\<dots> = (of_int ?M / 2 ^ 40) * (2 powi (52 - k) * 2 powi (k - 52))"
      by (simp add: sc)
    also have "2 powi (52 - k) * 2 powi (k - 52) = (1::rat)"
      by (simp add: power_int_add [symmetric])
    finally have up: "to_float64 ?y \<le> 1 - 1 / 2 ^ 30 - 1 / 2 ^ 40" by simp
    have "(of_int 0 :: rat) \<le> ?y * 2 powi (52 - k)" using pos by simp
    then have "0 \<le> round_half_even (?y * 2 powi (52 - k))" by (rule round_half_even_ge)
    then have "0 \<le> to_float64 ?y" unfolding r by simp
    with up show ?thesis by simp
  qed
  from main show "0 \<le> to_float64 ?y" by simp
  from main show "to_float64 ?y \<le> 1 - 1 / 2 ^ 30 - 1 / 2 ^ 40" by simp
qed

lemma fadd_sec_bounds:
  assumes "0 \<le> s" and "s < 2 ^ 24" and "0 \<le> q" and "q \<le> 1 - 1 / 2 ^ 30 - 1 / 2 ^ 40"
  shows "of_int s \<le> to_float64 (of_int s + q)" and "to_float64 (of_int s + q) < of_int s + 1"
proof -
  let ?y = "of_int s + q :: rat"
  have main: "of_int s \<le> to_float64 ?y \<and> to_float64 ?y < of_int s + 1"
  proof (cases "?y = 0")
    case True
    moreover from True assms(1,3) have "s = 0"
      by (metis add_nonneg_eq_0_iff of_int_0_le_iff of_int_eq_0_iff)
    ultimately show ?thesis by (simp add: to_float64_def)
  next
    case False
    with assms(1,3) have pos: "0 < ?y" by (simp add: less_le)
    define k where "k = binade ?y"
    from binade_bounds [OF pos]
    have b: "2 powi k \<le> ?y" "?y < 2 powi (k + 1)" by (simp_all add: k_def)
    from assms(2) have "s + 1 \<le> 2 ^ 24" by simp
    then have "(of_int (s + 1) :: rat) \<le> of_int (2 ^ 24)" by (simp only: of_int_le_iff)
    then have s1: "(of_int s :: rat) + 1 \<le> 2 ^ 24" by simp
    have "?y < of_int s + 1" using assms(4) by simp
    with s1 have "?y < 2 powi 24" by simp
    with b(1) have "(2::rat) powi k < 2 powi 24" by (rule le_less_trans)
    then have k: "k < 24" by (rule two_powi_less_imp)
    define PN :: int where "PN = 2 ^ 29 * 2 ^ nat (23 - k)"
    define P :: rat where "P = 2 powi (52 - k)"
    define Pi :: rat where "Pi = 2 powi (k - 52)"
    have P_eq: "P = of_int PN"
    proof -
      have "(2::rat) powi (29 + (23 - k)) = 2 powi 29 * 2 powi (23 - k)"
        by (rule power_int_add) simp
      then have "(2::rat) powi (52 - k) = 2 powi 29 * 2 powi (23 - k)"
        by (simp add: algebra_simps)
      with k show ?thesis by (simp add: two_powi_nat P_def PN_def)
    qed
    have inv: "P * Pi = 1"
      by (simp add: P_def Pi_def power_int_add [symmetric])
    have Pi0: "0 < Pi" by (simp add: Pi_def)
    have P0: "0 < P" by (simp add: P_def)
    have Pbig: "2 ^ 29 \<le> P"
    proof -
      have "(1::int) \<le> 2 ^ nat (23 - k)" by simp
      then have "(2 ^ 29 :: int) * 1 \<le> PN" unfolding PN_def by (rule mult_left_mono) simp
      then have "(of_int (2 ^ 29) :: rat) \<le> of_int PN" by (simp only: of_int_le_iff mult_1_right)
      then show ?thesis by (simp add: P_eq)
    qed
    have r: "to_float64 ?y = of_int (round_half_even (?y * P)) * Pi"
      unfolding P_def Pi_def using pos b by (rule to_float64_binade)
    \<comment> \<open>the sum is not rounded below the whole seconds\<close>
    have "(of_int (s * PN) :: rat) = of_int s * P" by (simp add: P_eq)
    also have "\<dots> \<le> ?y * P" using assms(3) P0 by (simp add: mult_right_mono)
    finally have "s * PN \<le> round_half_even (?y * P)" by (rule round_half_even_ge)
    then have "(of_int (s * PN) :: rat) \<le> of_int (round_half_even (?y * P))"
      by (simp only: of_int_le_iff)
    then have "of_int (s * PN) * Pi \<le> to_float64 ?y"
      unfolding r using Pi0 by (simp add: mult_right_mono)
    moreover have "(of_int (s * PN) :: rat) * Pi = of_int s * (P * Pi)"
      by (simp add: P_eq)
    ultimately have lo: "of_int s \<le> to_float64 ?y" by (simp only: inv mult_1_right)
    \<comment> \<open>nor up to the next second\<close>
    have gap: "1 / 2 ^ 30 + 1 / 2 ^ 40 \<le> of_int s + 1 - ?y" using assms(4) by simp
    have "(1 / 2 ^ 30 + 1 / 2 ^ 40) * (2 ^ 29 :: rat) \<le> (1 / 2 ^ 30 + 1 / 2 ^ 40) * P"
      using Pbig by (rule mult_left_mono) simp
    also have "\<dots> \<le> (of_int s + 1 - ?y) * P"
      using gap P0 by (simp only: mult_right_mono less_imp_le)
    finally have "1 / 2 < (of_int s + 1 - ?y) * P" by simp
    then have "?y * P < (of_int s + 1) * P - 1 / 2"
      by (simp add: algebra_simps)
    also have "(of_int s + 1) * P = of_int ((s + 1) * PN)"
      by (simp add: P_eq)
    finally have "round_half_even (?y * P) < (s + 1) * PN"
      by (rule round_half_even_less)
    then have "(of_int (round_half_even (?y * P)) :: rat) < of_int ((s + 1) * PN)"
      by (simp only: of_int_less_iff)
    then have "to_float64 ?y < of_int ((s + 1) * PN) * Pi"
      unfolding r using Pi0 by (simp add: mult_strict_right_mono)
    moreover have "(of_int ((s + 1) * PN) :: rat) * Pi = (of_int s + 1) * (P * Pi)"
      by (simp add: P_eq)
    ultimately have "to_float64 ?y < of_int s + 1" by (simp only: inv mult_1_right)
    with lo show ?thesis by simp
  qed
  from main show "of_int s \<le> to_float64 ?y" by simp
  from main show "to_float64 ?y < of_int s + 1" by simp
qed

lemma Seconds_floor:
  assumes "0 \<le> d" and "d < 2 ^ 24 * 1000000000"
  shows "\<lfloor>Seconds d\<rfloor> = d div 1000000000" and "0 \<le> Seconds d"
proof -
  let ?s = "d div 1000000000" and ?n = "d mod 1000000000"
  have q: "quo d Second = ?s" using assms(1) by (cases "d = 0") (simp_all add: quo_def Second_def)
  have r: "rem d Second = ?n" unfolding rem_def q by (simp add: Second_def minus_mult_div_eq_mod)
  have s0: "0 \<le> ?s" using assms(1) by (simp add: pos_imp_zdiv_nonneg_iff)
  have "d < 16777216 * 1000000000" using assms(2) by simp
  then have "?s < 16777216" by presburger
  then have s1: "?s < 2 ^ 24" by simp
  have n0: "0 \<le> ?n" and n1: "?n < 1000000000" by simp_all
  have fs: "float64_of_int ?s = of_int ?s"
    unfolding float64_of_int_def using s0 s1 by (intro to_float64_of_int) simp_all
  have fn: "float64_of_int ?n = of_int ?n"
    unfolding float64_of_int_def using n0 n1 by (intro to_float64_of_int) simp_all
  have fc: "to_float64 1000000000 = 1000000000"
    using to_float64_of_int [of 1000000000] by simp
  have S: "Seconds d = to_float64 (of_int ?s + to_float64 (of_int ?n / 1000000000))"
    by (simp add: Seconds_def Let_def q r fs fn fc fadd_def fdiv_def)
  note fb = fdiv_nsec_bounds [OF n0 n1]
  note sb = fadd_sec_bounds [OF s0 s1 fb]
  from sb show "\<lfloor>Seconds d\<rfloor> = ?s" unfolding S by (simp add: floor_eq_iff)
  from sb(1) s0 show "0 \<le> Seconds d" unfolding S
    by (meson of_int_0_le_iff order_trans)
qed

subsection \<open>Session history\<close>

lemma Sub_in_range: "0 \<le> t - u \<Longrightarrow> t - u < 2 ^ 24 * 1000000000 \<Longrightarrow> Sub t u = t - u"
  by (simp add: Sub_def minDuration_def maxDuration_def)

lemma uint_word_of_int_small:
  assumes lo: "0 \<le> (n::int)" and hi: "n < 16777216"
  shows "uint (word_of_int n :: 64 word) = n"
proof -
  have "n < 2 ^ 64" using hi by simp
  with lo have "take_bit 64 n = n" by (simp add: take_bit_int_eq_self)
  then show ?thesis by (simp add: uint_word_of_int_eq)
qed

lemma uint64_of_Seconds:
  assumes "0 \<le> d" and "d < 2 ^ 24 * 1000000000"
  shows "uint (uint64_of_float64 out_of_range (Seconds d)) = d div 1000000000"
proof -
  define n where "n = d div 1000000000"
  note S = Seconds_floor [OF assms]
  have t: "truncate_toward_zero (Seconds d) = n"
    using S by (simp add: truncate_toward_zero_def n_def)
  have lo: "0 \<le> n" unfolding n_def using assms(1) by (simp add: pos_imp_zdiv_nonneg_iff)
  have "d < 16777216 * 1000000000" using assms(2) by simp
  then have hi: "n < 16777216" unfolding n_def by presburger
  then have "n < 2 ^ 64" by simp
  with lo have "uint64_of_float64 out_of_range (Seconds d) = word_of_int n"
    unfolding uint64_of_float64_def t Let_def by (simp only: simp_thms if_True)
  with uint_word_of_int_small [OF lo hi] show ?thesis by (simp only: n_def)
qed

lemma GetDuration_in_range:
  assumes "Status se = SessionStatusCompleted"
    and "0 \<le> Updated se - Started se" and "Updated se - Started se < 2 ^ 24 * 1000000000"
  shows "uint (GetDuration out_of_range se) = (Updated se - Started se) div 1000000000"
  unfolding GetDuration_def Sub_in_range [OF assms(2,3)]
  using assms(1) uint64_of_Seconds [OF assms(2,3)] by (simp only: simp_thms if_True)

text \<open>
  Claim C3, as the code has it. \<open>GetDuration\<close> returns 0 if the record's status is not
  \<open>Completed\<close>. If the status is \<open>Completed\<close> and the interval from \<open>Started\<close> to \<open>Updated\<close>
  is not negative and shorter than \<open>2 ^ 24\<close> seconds, it returns the interval truncated
  to whole seconds, 0 for an interval of length zero. The value is computed from
  \<open>Status\<close>, \<open>Updated\<close> and \<open>Started\<close> alone: two records that agree on them have the same
  duration.
\<close>

theorem GetDuration_whole_seconds:
  "(Status se \<noteq> SessionStatusCompleted \<longrightarrow> GetDuration out_of_range se = 0)
   \<and> (Status se = SessionStatusCompleted \<and> 0 \<le> Updated se - Started se
        \<and> Updated se - Started se < 2 ^ 24 * 1000000000 \<longrightarrow>
        uint (GetDuration out_of_range se) = (Updated se - Started se) div 1000000000)
   \<and> (Status se' = Status se \<and> Updated se' = Updated se \<and> Started se' = Started se \<longrightarrow>
        GetDuration out_of_range se' = GetDuration out_of_range se)"
  proof (intro conjI impI)
  assume "Status se \<noteq> SessionStatusCompleted"
  then show "GetDuration out_of_range se = 0" by (simp only: GetDuration_def if_False)
next
  assume "Status se = SessionStatusCompleted \<and> 0 \<le> Updated se - Started se
        \<and> Updated se - Started se < 2 ^ 24 * 1000000000"
  then show "uint (GetDuration out_of_range se) = (Updated se - Started se) div 1000000000"
    by (intro GetDuration_in_range) (simp_all only:)
next
  assume "Status se' = Status se \<and> Updated se' = Updated se \<and> Started se' = Started se"
  then show "GetDuration out_of_range se' = GetDuration out_of_range se"
    by (simp only: GetDuration_def)
qed

lemma history_sel:
  "Status (history st a b) = st" "Started (history st a b) = a" "Updated (history st a b) = b"
  by (simp_all add: history_def)

theorem GetDuration_whole_seconds_witness:
  "GetDuration saturating (history SessionStatusNew 5000000001 7500000000) = 0
   \<and> uint (GetDuration saturating (history SessionStatusCompleted 5000000001 7500000000)) = 2
   \<and> uint (GetDuration saturating (history SessionStatusCompleted 5000000001 5000000001)) = 0"
  using GetDuration_whole_seconds [of "history SessionStatusNew 5000000001 7500000000" saturating
      "history SessionStatusNew 5000000001 7500000000"]
    GetDuration_whole_seconds [of "history SessionStatusCompleted 5000000001 7500000000" saturating
      "history SessionStatusCompleted 5000000001 7500000000"]
    GetDuration_whole_seconds [of "history SessionStatusCompleted 5000000001 5000000001" saturating
      "history SessionStatusCompleted 5000000001 5000000001"]
  by (simp add: history_sel SessionStatusNew_def SessionStatusCompleted_def)

lemma Seconds_rounds_up: "Seconds 16777216999999999 = 16777217"
  by code_simp

lemma Seconds_negative: "Seconds (- 2000000000) = - 2"
  by code_simp

text \<open>
  Two records on which the duration is not the truncated interval. After \<open>2 ^ 24\<close>
  seconds and 999999999 nanoseconds, the sum in \<open>Seconds\<close> is rounded up to the next whole
  second. With \<open>Updated\<close> two seconds before \<open>Started\<close>, the interval is \<open>-2\<close> seconds, which
  no \<open>uint64\<close> is.
\<close>

theorem GetDuration_not_truncation:
  "uint (GetDuration saturating (history SessionStatusCompleted 0 16777216999999999)) = 16777217
   \<and> (16777216999999999 - 0) div 1000000000 = (16777216 :: int)
   \<and> uint (GetDuration saturating (history SessionStatusCompleted 2000000000 0)) = 0
   \<and> quo (0 - 2000000000) 1000000000 = - 2"
  by (simp add: GetDuration_def history_sel Sub_def minDuration_def maxDuration_def
        Seconds_rounds_up Seconds_negative uint64_of_float64_def truncate_toward_zero_def
        saturating_def quo_def)

lemma to_float64_binade_range:
  assumes "0 < y"
  shows "2 powi binade y \<le> to_float64 y" and "to_float64 y \<le> 2 powi (binade y + 1)"
proof -
  define k where "k = binade y"
  define P :: rat where "P = 2 powi (52 - k)"
  define Pi :: rat where "Pi = 2 powi (k - 52)"
  from binade_bounds [OF assms]
  have b: "2 powi k \<le> y" "y < 2 powi (k + 1)" by (simp_all add: k_def)
  have r: "to_float64 y = of_int (round_half_even (y * P)) * Pi"
    unfolding P_def Pi_def using assms b by (rule to_float64_binade)
  have P0: "0 < P" by (simp add: P_def)
  have Pi0: "0 < Pi" by (simp add: Pi_def)
  have lo_eq: "2 powi k * P = of_int (2 ^ 52)"
    by (simp add: P_def power_int_add [symmetric])
  have hi_eq: "2 powi (k + 1) * P = of_int (2 ^ 53)"
    by (simp add: P_def power_int_add [symmetric])
  have back_lo: "of_int (2 ^ 52) * Pi = (2::rat) powi k"
  proof -
    have "(2::rat) powi (52 + (k - 52)) = 2 powi 52 * 2 powi (k - 52)"
      by (rule power_int_add) simp
    then show ?thesis by (simp add: Pi_def)
  qed
  have back_hi: "of_int (2 ^ 53) * Pi = (2::rat) powi (k + 1)"
  proof -
    have "(2::rat) powi (53 + (k - 52)) = 2 powi 53 * 2 powi (k - 52)"
      by (rule power_int_add) simp
    moreover have "53 + (k - 52) = k + 1" by simp
    ultimately show ?thesis by (simp add: Pi_def)
  qed
  have "of_int (2 ^ 52) \<le> y * P"
    unfolding lo_eq [symmetric] using b(1) P0 by (simp only: mult_right_mono less_imp_le)
  then have "2 ^ 52 \<le> round_half_even (y * P)" by (rule round_half_even_ge)
  then have "(of_int (2 ^ 52) :: rat) \<le> of_int (round_half_even (y * P))"
    by (simp only: of_int_le_iff)
  then have "of_int (2 ^ 52) * Pi \<le> to_float64 y"
    unfolding r using Pi0 by (simp only: mult_right_mono less_imp_le)
  then show "2 powi binade y \<le> to_float64 y" by (simp only: back_lo k_def)
  have "y * P \<le> of_int (2 ^ 53)"
    unfolding hi_eq [symmetric] using b(2) P0 by (simp only: mult_right_mono less_imp_le)
  then have "round_half_even (y * P) \<le> 2 ^ 53" by (rule round_half_even_le)
  then have "(of_int (round_half_even (y * P)) :: rat) \<le> of_int (2 ^ 53)"
    by (simp only: of_int_le_iff)
  then have "to_float64 y \<le> of_int (2 ^ 53) * Pi"
    unfolding r using Pi0 by (simp only: mult_right_mono less_imp_le)
  then show "to_float64 y \<le> 2 powi (binade y + 1)" by (simp only: back_hi k_def)
qed

lemma two_powi_le_imp: "(2::rat) powi m \<le> 2 powi n \<Longrightarrow> m \<le> n"
proof (rule ccontr)
  assume a: "(2::rat) powi m \<le> 2 powi n" and "\<not> m \<le> n"
  then have "n < m" by simp
  then have "(2::rat) powi n < 2 powi m" by (rule power_int_strict_increasing) simp
  with a show False by simp
qed

lemma to_float64_ge_two_powi:
  assumes "0 < y" and "2 powi j \<le> y"
  shows "2 powi j \<le> to_float64 y"
proof -
  from assms(2) binade_bounds(2) [OF assms(1)]
  have "(2::rat) powi j < 2 powi (binade y + 1)" by (rule le_less_trans)
  then have "j < binade y + 1" by (rule two_powi_less_imp)
  then have "j \<le> binade y" by simp
  then have "(2::rat) powi j \<le> 2 powi binade y" by (rule power_int_increasing) simp
  also have "\<dots> \<le> to_float64 y" using assms(1) by (rule to_float64_binade_range)
  finally show ?thesis .
qed

lemma to_float64_le_two_powi:
  assumes "0 < y" and "y < 2 powi j"
  shows "to_float64 y \<le> 2 powi j"
proof -
  from binade_bounds(1) [OF assms(1)] assms(2)
  have "(2::rat) powi binade y < 2 powi j" by (rule le_less_trans)
  then have "binade y < j" by (rule two_powi_less_imp)
  then have "binade y + 1 \<le> j" by simp
  then have "(2::rat) powi (binade y + 1) \<le> 2 powi j" by (rule power_int_increasing) simp
  with to_float64_binade_range(2) [OF assms(1)] show ?thesis by (rule order_trans)
qed

lemma Seconds_at_least_one:
  assumes "1000000000 \<le> d" and "d \<le> maxDuration"
  shows "1 \<le> Seconds d" and "Seconds d \<le> 2 ^ 34"
proof -
  let ?s = "d div 1000000000" and ?n = "d mod 1000000000"
  from assms(1) have d0: "0 \<le> d" by simp
  have q: "quo d Second = ?s" using d0 by (cases "d = 0") (simp_all add: quo_def Second_def)
  have r: "rem d Second = ?n" unfolding rem_def q by (simp add: Second_def minus_mult_div_eq_mod)
  have "0 < ?s" using assms(1) by (simp add: pos_imp_zdiv_pos_iff)
  then have s1: "1 \<le> ?s" by simp
  have "?s \<le> maxDuration div 1000000000" using assms(2) by (intro zdiv_mono1) simp_all
  also have "maxDuration div 1000000000 = 9223372036" by (simp add: maxDuration_def)
  finally have s2: "?s + 1 \<le> 2 ^ 34" by simp
  then have s3: "?s < 2 ^ 53" by simp
  have n0: "0 \<le> ?n" and n1: "?n < 1000000000" by simp_all
  have fs: "float64_of_int ?s = of_int ?s"
    unfolding float64_of_int_def using s1 s3 by (intro to_float64_of_int) simp_all
  have fn: "float64_of_int ?n = of_int ?n"
    unfolding float64_of_int_def using n0 n1 by (intro to_float64_of_int) simp_all
  have fc: "to_float64 1000000000 = 1000000000"
    using to_float64_of_int [of 1000000000] by simp
  define f where "f = to_float64 (of_int ?n / 1000000000)"
  have S: "Seconds d = to_float64 (of_int ?s + f)"
    by (simp add: Seconds_def Let_def q r fs fn fc fadd_def fdiv_def f_def)
  from fdiv_nsec_bounds [OF n0 n1]
  have f0: "0 \<le> f" and f1: "f < 1" unfolding f_def by simp_all
  from s1 have rs1: "(1::rat) \<le> of_int ?s" by simp
  from s2 have "(of_int (?s + 1) :: rat) \<le> of_int (2 ^ 34)" by (simp only: of_int_le_iff)
  then have rs2: "(of_int ?s :: rat) + 1 \<le> 2 ^ 34" by simp
  have pos: "0 < of_int ?s + f" using rs1 f0 by linarith
  have "(2::rat) powi 0 \<le> of_int ?s + f" using rs1 f0 by simp
  with pos have "(2::rat) powi 0 \<le> to_float64 (of_int ?s + f)" by (rule to_float64_ge_two_powi)
  then show "1 \<le> Seconds d" unfolding S by simp
  have "of_int ?s + f < (2::rat) powi 34" using rs2 f1 by simp
  with pos have "to_float64 (of_int ?s + f) \<le> 2 powi 34" by (rule to_float64_le_two_powi)
  then show "Seconds d \<le> 2 ^ 34" unfolding S by simp
qed

lemma uint64_of_Seconds_nonzero:
  assumes "1000000000 \<le> d" and "d \<le> maxDuration"
  shows "uint64_of_float64 out_of_range (Seconds d) \<noteq> 0"
proof -
  define n where "n = truncate_toward_zero (Seconds d)"
  note S = Seconds_at_least_one [OF assms]
  have n_def': "n = \<lfloor>Seconds d\<rfloor>" using S(1) by (simp add: n_def truncate_toward_zero_def)
  have lo: "1 \<le> n" unfolding n_def' using S(1) by (simp add: le_floor_iff)
  have "Seconds d \<le> of_int (2 ^ 34)" using S(2) by simp
  then have "n \<le> 2 ^ 34" unfolding n_def' by (simp only: floor_le_iff)
  then have hi: "n < 2 ^ 64" by simp
  from lo hi have "uint64_of_float64 out_of_range (Seconds d) = word_of_int n"
    unfolding uint64_of_float64_def n_def [symmetric] Let_def by simp
  moreover have "uint (word_of_int n :: 64 word) = n"
    using lo hi by (simp add: uint_word_of_int_eq take_bit_int_eq_self)
  ultimately have "uint (uint64_of_float64 out_of_range (Seconds d)) = n" by simp
  with lo show ?thesis by auto
qed

lemma Sub_at_least_one_second:
  "1000000000 \<le> t - u \<Longrightarrow> 1000000000 \<le> Sub t u \<and> Sub t u \<le> maxDuration"
  by (simp add: Sub_def minDuration_def maxDuration_def Let_def)

text \<open>
  Claim C4, as the code has it. A duration other than zero is returned for \<open>Completed\<close>
  records only. A \<open>Completed\<close> record whose interval from \<open>Started\<close> to \<open>Updated\<close> is at
  least one second has a duration other than zero, however long the interval is. A
  \<open>Completed\<close> record whose interval is not negative and shorter than one second, in
  particular one whose two timestamps are equal, has the duration zero.
\<close>

theorem GetDuration_nonzero:
  "(GetDuration out_of_range se \<noteq> 0 \<longrightarrow> Status se = SessionStatusCompleted)
   \<and> (Status se = SessionStatusCompleted \<and> 1000000000 \<le> Updated se - Started se \<longrightarrow>
        GetDuration out_of_range se \<noteq> 0)
   \<and> (Status se = SessionStatusCompleted \<and> 0 \<le> Updated se - Started se
        \<and> Updated se - Started se < 1000000000 \<longrightarrow> GetDuration out_of_range se = 0)"
proof (intro conjI impI)
  assume "GetDuration out_of_range se \<noteq> 0"
  then show "Status se = SessionStatusCompleted"
    unfolding GetDuration_def by (cases "Status se = SessionStatusCompleted") simp_all
next
  assume a: "Status se = SessionStatusCompleted \<and> 1000000000 \<le> Updated se - Started se"
  then have "1000000000 \<le> Sub (Updated se) (Started se)"
    and "Sub (Updated se) (Started se) \<le> maxDuration"
    using Sub_at_least_one_second [of "Updated se" "Started se"] by simp_all
  then have "uint64_of_float64 out_of_range (Seconds (Sub (Updated se) (Started se))) \<noteq> 0"
    by (rule uint64_of_Seconds_nonzero)
  with a show "GetDuration out_of_range se \<noteq> 0" by (simp only: GetDuration_def if_True simp_thms)
next
  assume a: "Status se = SessionStatusCompleted \<and> 0 \<le> Updated se - Started se
        \<and> Updated se - Started se < 1000000000"
  then have "Updated se - Started se < 2 ^ 24 * 1000000000" by simp
  with a have "uint (GetDuration out_of_range se) = (Updated se - Started se) div 1000000000"
    by (intro GetDuration_in_range) (simp_all only:)
  also from a have "\<dots> = 0" by simp
  finally show "GetDuration out_of_range se = 0" by (simp only: uint_0_iff)
qed

theorem GetDuration_nonzero_witness:
  "GetDuration saturating (history SessionStatusCompleted 5000000001 5900000000) = 0
   \<and> GetDuration saturating (history SessionStatusCompleted 5000000001 7500000000) \<noteq> 0
   \<and> GetDuration saturating (history SessionStatusCompleted 0 9000000000000000000) \<noteq> 0
   \<and> Status (history SessionStatusCompleted 5000000001 7500000000) = SessionStatusCompleted"
  using GetDuration_nonzero [of saturating "history SessionStatusCompleted 5000000001 5900000000"]
    GetDuration_nonzero [of saturating "history SessionStatusCompleted 5000000001 7500000000"]
    GetDuration_nonzero [of saturating "history SessionStatusCompleted 0 9000000000000000000"]
  by (simp add: history_sel)

text \<open>
  A \<open>Completed\<close> record whose \<open>Updated\<close> and \<open>Started\<close> are equal has the duration zero.
\<close>

theorem GetDuration_zero_length_completed:
  "Status (history SessionStatusCompleted 5000000001 5000000001) = SessionStatusCompleted
   \<and> Updated (history SessionStatusCompleted 5000000001 5000000001)
     = Started (history SessionStatusCompleted 5000000001 5000000001)
   \<and> GetDuration saturating (history SessionStatusCompleted 5000000001 5000000001) = 0"
proof -
  have "Seconds 0 = 0" by code_simp
  then show ?thesis
    by (simp add: history_sel GetDuration_def Sub_def minDuration_def maxDuration_def
        uint64_of_float64_def truncate_toward_zero_def)
qed

end
